theory Spec2Isabelle
  imports Main "HOL-Library.Sublist"
begin

section \<open>Product identifiers (src/index.ts, AmazonSource)\<close>

text \<open>
  JavaScript strings are modelled as \<open>string\<close>. The two regular expressions of the
  source only mention ASCII characters, and every character outside ASCII fails each of
  their character tests, in UTF-16 code units as in bytes.

  The character class \<^verbatim>\<open>[A-Z0-9]\<close>.
\<close>

definition asinChar :: "char \<Rightarrow> bool" where
  "asinChar c = (c \<in> set ''ABCDEFGHIJKLMNOPQRSTUVWXYZ0123456789'')"

text \<open>
  The pattern \<^verbatim>\<open>/\/([A-Z0-9]{10})(?:\/|\?|$)/\<close> anchored at the start of the given
  text: a slash, exactly ten characters of the class (the capture group), and then a
  slash, a question mark or the end of the input (no \<^verbatim>\<open>m\<close> flag, so \<^verbatim>\<open>$\<close> is the end of
  the whole string). The result is the capture group.
\<close>

definition asinPatternAt :: "string \<Rightarrow> string option" where
  "asinPatternAt s =
     (case s of
        [] \<Rightarrow> None
      | c # rest \<Rightarrow>
          if c = CHR ''/'' \<and> 10 \<le> length rest \<and> list_all asinChar (take 10 rest)
             \<and> (case drop 10 rest of
                    [] \<Rightarrow> True
                  | d # _ \<Rightarrow> d = CHR ''/'' \<or> d = CHR ''?'')
          then Some (take 10 rest)
          else None)"

text \<open>
  \<^verbatim>\<open>url.match(asinPattern)\<close>: the regular expression is tried at every start position
  from left to right and the leftmost match wins; \<^verbatim>\<open>match ? match[1] : null\<close> is the
  capture group of that match, \<open>None\<close> standing for \<^verbatim>\<open>null\<close>.
\<close>

fun asinPatternSearch :: "string \<Rightarrow> string option" where
  "asinPatternSearch [] = None"
| "asinPatternSearch (c # cs) =
     (case asinPatternAt (c # cs) of
        Some asin \<Rightarrow> Some asin
      | None \<Rightarrow> asinPatternSearch cs)"

definition extractAsinFromUrl :: "string \<Rightarrow> string option" where
  "extractAsinFromUrl url = asinPatternSearch url"

text \<open>The methods of the object \<^verbatim>\<open>AmazonSource\<close>.\<close>

definition extractProductId :: "string \<Rightarrow> string option" where
  "extractProductId url = asinPatternSearch url"

text \<open>
  \<^verbatim>\<open>asin ? `amazon:${asin}` : `amazon:${identifier}`\<close>: a capture group of the pattern
  has ten characters, so it is never the empty (falsy) string; the test is written out
  all the same.
\<close>

definition createProductLocator :: "string \<Rightarrow> bool \<Rightarrow> string" where
  "createProductLocator identifier isUrl =
     (if isUrl then
        (case extractProductId identifier of
           Some asin \<Rightarrow> if asin \<noteq> [] then ''amazon:'' @ asin else ''amazon:'' @ identifier
         | None \<Rightarrow> ''amazon:'' @ identifier)
      else ''amazon:'' @ identifier)"

text \<open>\<^verbatim>\<open>/^[A-Z0-9]{10}$/.test(identifier)\<close>.\<close>

definition asinOnly :: "string \<Rightarrow> bool" where
  "asinOnly identifier = (length identifier = 10 \<and> list_all asinChar identifier)"

definition validateIdentifier :: "string \<Rightarrow> bool \<Rightarrow> bool" where
  "validateIdentifier identifier isUrl =
     (if isUrl then extractProductId identifier \<noteq> None else asinOnly identifier)"

text \<open>
  The last group of the pattern, \<^verbatim>\<open>(?:\/|\?|$)\<close>, as a test on what follows the ten
  characters: nothing, or a text that starts with a slash or a question mark.
\<close>

definition asinTerminator :: "string \<Rightarrow> bool" where
  "asinTerminator rest =
     (case rest of
        [] \<Rightarrow> True
      | d # _ \<Rightarrow> d = CHR ''/'' \<or> d = CHR ''?'')"

section \<open>Order snapshots (the interfaces of src/index.ts and src/payment.ts)\<close>

text \<open>
  Values of type \<^verbatim>\<open>any\<close> (a response body, the open bag of a preparation) are JSON
  values. An object is the list of its properties in insertion order, read with
  \<open>map_of\<close>. Numbers only matter here through their truthiness, so integers stand for
  them.
\<close>

datatype json =
    JNull
  | JBool bool
  | JNum int
  | JStr string
  | JArr "json list"
  | JObj "(string \<times> json) list"

text \<open>
  The interfaces \<^verbatim>\<open>OrderStatusResponse\<close> (index.ts) and \<^verbatim>\<open>Order\<close>, \<^verbatim>\<open>OrderPayment\<close>,
  \<^verbatim>\<open>OrderQuote\<close>, \<^verbatim>\<open>PaymentPreparation\<close> (payment.ts). An optional property is an
  \<open>option\<close>, \<open>None\<close> standing for \<^verbatim>\<open>undefined\<close>. The fields \<^verbatim>\<open>locale\<close> and
  \<^verbatim>\<open>lineItems\<close> are never read by the code modelled here and are left out.
\<close>

record OrderQuote =
  quote_status :: string
  quotedAt :: "string option"
  expiresAt :: "string option"
  totalPrice :: "(string \<times> string) option"

record PaymentPreparation =
  serializedTransaction :: "string option"
  otherKeys :: "(string \<times> json) list"

record OrderPayment =
  payment_status :: string
  payment_method :: string
  payment_currency :: string
  preparation :: "PaymentPreparation option"

text \<open>
  The fields an order is read through: \<^verbatim>\<open>orderId\<close>, \<^verbatim>\<open>phase\<close>, \<^verbatim>\<open>quote\<close> and
  \<^verbatim>\<open>payment\<close>. A status response has them at its top level, all optional, next to
  \<^verbatim>\<open>clientSecret\<close> and the nested \<^verbatim>\<open>order\<close>; the callers read an order through
  \<^verbatim>\<open>statusResponse.order || statusResponse\<close>, so the response is an extension of the
  order record. The command-line flow casts such a snapshot to \<^verbatim>\<open>Order\<close> without a
  check, so \<^verbatim>\<open>quote\<close> and \<^verbatim>\<open>payment\<close> stay optional here, and reading a property of
  an undefined one is the \<^verbatim>\<open>TypeError\<close> JavaScript throws.
\<close>

record Order =
  orderId :: "string option"
  phase :: "string option"
  quote :: "OrderQuote option"
  payment :: "OrderPayment option"

record OrderStatusResponse = Order +
  clientSecret :: "string option"
  order :: "Order option"

text \<open>\<^verbatim>\<open>statusResponse.order || statusResponse\<close>: an object is truthy.\<close>

definition orderOf :: "OrderStatusResponse \<Rightarrow> Order" where
  "orderOf statusResponse =
     (case order statusResponse of
        Some ord \<Rightarrow> ord
      | None \<Rightarrow> Order.truncate statusResponse)"

text \<open>\<^verbatim>\<open>x || fallback\<close> on an optional string: undefined and the empty string are falsy.\<close>

definition orElse :: "string option \<Rightarrow> string \<Rightarrow> string" where
  "orElse x fallback =
     (case x of
        None \<Rightarrow> fallback
      | Some s \<Rightarrow> if s \<noteq> [] then s else fallback)"

text \<open>\<^verbatim>\<open>order.payment?.status\<close>.\<close>

definition paymentStatusOf :: "Order \<Rightarrow> string option" where
  "paymentStatusOf ord = map_option payment_status (payment ord)"

text \<open>\<^verbatim>\<open>order.payment?.preparation?.serializedTransaction\<close>.\<close>

definition preparedTransaction :: "Order \<Rightarrow> string option" where
  "preparedTransaction ord =
     (case payment ord of
        None \<Rightarrow> None
      | Some pay \<Rightarrow>
          (case preparation pay of
             None \<Rightarrow> None
           | Some prep \<Rightarrow> serializedTransaction prep))"

text \<open>The truthiness of an optional string, as in \<^verbatim>\<open>if (x)\<close> and \<^verbatim>\<open>!x\<close>.\<close>

definition truthy :: "string option \<Rightarrow> bool" where
  "truthy x = (case x of None \<Rightarrow> False | Some s \<Rightarrow> s \<noteq> [])"

section \<open>Errors and effects\<close>

text \<open>
  The source throws \<^verbatim>\<open>Error\<close> objects told apart by their messages only; each message
  is a constructor here, named as the specification names the failure:
  \<^item> \<open>RemoteRequestFailed\<close>, \<open>RemoteUnreachable\<close>: what \<^verbatim>\<open>getOrderStatus\<close> throws,
    \<^verbatim>\<open>Failed to get order status: ...\<close>, with and without a response;
  \<^item> \<open>PaymentTerminallyFailed s\<close>:
    \<^verbatim>\<open>Order payment status is ${s}. Cannot proceed with payment.\<close>;
  \<^item> \<open>PreparationTimeout n\<close>: \<^verbatim>\<open>Payment preparation not available after ${n} attempts\<close>;
  \<^item> \<open>InsufficientFunds\<close>: \<^verbatim>\<open>Insufficient funds\<close>;
  \<^item> \<open>AddressRequired\<close>: \<^verbatim>\<open>recipient.physicalAddress is required\<close>;
  \<^item> \<open>PaymentPayloadMissing ord\<close>: \<^verbatim>\<open>No serialized transaction found for order, ...\<close>
    followed by \<^verbatim>\<open>JSON.stringify(order, null, 2)\<close>;
  \<^item> \<open>UndefinedProperty\<close>: the \<^verbatim>\<open>TypeError\<close> of reading a property of undefined;
  \<^item> \<open>InvalidPrivateKey\<close>: what \<^verbatim>\<open>new ethers.Wallet\<close> throws;
  \<^item> \<open>TransactionSubmissionFailed\<close>: whatever \<^verbatim>\<open>parseTransaction\<close>,
    \<^verbatim>\<open>sendTransaction\<close> or \<^verbatim>\<open>tx.wait\<close> throws, rethrown by \<^verbatim>\<open>processPayment\<close>.
\<close>

datatype error =
    RemoteRequestFailed nat json
  | RemoteUnreachable string
  | PaymentTerminallyFailed string
  | PreparationTimeout nat
  | InsufficientFunds
  | AddressRequired
  | PaymentPayloadMissing Order
  | UndefinedProperty
  | InvalidPrivateKey
  | TransactionSubmissionFailed string

text \<open>The lines written to the console that the model records, one constructor for each.\<close>

datatype log =
    OrderPhase string
  | PaymentStatus string
  | PaymentMethod string
  | ErrorPollingOrderStatus error
  | TransactionSent string
  | TransactionConfirmed nat
  | ErrorSendingTransaction error
  | ProcessingPayment
  | PaymentProcessed
  | ErrorProcessingPayment error
  | CompleteManually
  | NoPrivateKey
  | RequiresAddress
  | ReadyForPayment
  | MonitoringOrder
  | OrderDetails string string string
  | ErrorFinalDetails error
  | ErrorCheckingStatus error

text \<open>
  What a run does to the outside world: the number of \<^verbatim>\<open>getOrderStatus\<close> calls made,
  the delays slept (\<^verbatim>\<open>setTimeout\<close>, in milliseconds), the console, and the transactions
  handed to \<^verbatim>\<open>wallet.sendTransaction\<close>, each with the RPC endpoint of its provider.
\<close>

record world =
  status_calls :: nat
  sleeps :: "nat list"
  console :: "log list"
  submissions :: "(string \<times> string) list"

definition world0 :: world where
  "world0 = \<lparr>status_calls = 0, sleeps = [], console = [], submissions = []\<rparr>"

definition sleep :: "nat \<Rightarrow> world \<Rightarrow> world" where
  "sleep ms w = w\<lparr>sleeps := sleeps w @ [ms]\<rparr>"

definition consoleLog :: "log \<Rightarrow> world \<Rightarrow> world" where
  "consoleLog line w = w\<lparr>console := console w @ [line]\<rparr>"

text \<open>
  The checkout service behind \<^verbatim>\<open>getOrderStatus\<close> is the environment: it gives the
  result of the \<open>n\<close>-th call of a run, for the order identifier and API key passed,
  either a thrown error or a status response.
\<close>

type_synonym gateway = "nat \<Rightarrow> string \<Rightarrow> string \<Rightarrow> error + OrderStatusResponse"

definition callGetOrderStatus ::
  "gateway \<Rightarrow> string \<Rightarrow> string \<Rightarrow> world \<Rightarrow> (error + OrderStatusResponse) \<times> world" where
  "callGetOrderStatus gw oid apiKey w =
     (gw (Suc (status_calls w)) oid apiKey, w\<lparr>status_calls := Suc (status_calls w)\<rparr>)"

text \<open>A gateway that replays a script, for concrete runs.\<close>

definition scripted :: "(error + OrderStatusResponse) list \<Rightarrow> gateway" where
  "scripted script n oid apiKey =
     (if 1 \<le> n \<and> n \<le> length script then script ! (n - 1)
      else Inl (RemoteUnreachable ''script exhausted''))"

section \<open>Payment preparation poller (src/index.ts, waitForPaymentPreparation)\<close>

definition DEFAULT_POLLING_MAX_ATTEMPTS :: nat where
  "DEFAULT_POLLING_MAX_ATTEMPTS = 15"

definition DEFAULT_POLLING_DELAY_MS :: nat where
  "DEFAULT_POLLING_DELAY_MS = 2000"

text \<open>The variables \<^verbatim>\<open>lastPhase\<close> and \<^verbatim>\<open>lastPaymentStatus\<close> of the loop.\<close>

record poll_vars =
  lastPhase :: string
  lastPaymentStatus :: string

text \<open>How the \<^verbatim>\<open>try\<close> block of one iteration ends.\<close>

datatype attempt =
    Returned OrderStatusResponse
  | Thrown error
  | Completed

text \<open>
  The \<^verbatim>\<open>try\<close> block of the loop body: one \<^verbatim>\<open>getOrderStatus\<close> call, the two
  log-on-change updates, the return when a serialized transaction is there, the throw
  on a terminal payment status, and the sleep otherwise.
\<close>

definition pollAttempt ::
  "gateway \<Rightarrow> string \<Rightarrow> string \<Rightarrow> nat \<Rightarrow> poll_vars \<Rightarrow> world \<Rightarrow> attempt \<times> poll_vars \<times> world" where
  "pollAttempt gw oid apiKey delayMs vars w =
     (case callGetOrderStatus gw oid apiKey w of
        (Inl e, w1) \<Rightarrow> (Thrown e, vars, w1)
      | (Inr statusResponse, w1) \<Rightarrow>
          let ord = orderOf statusResponse;
              currentPhase = orElse (phase ord) ''unknown'';
              currentPaymentStatus = orElse (paymentStatusOf ord) ''unknown'';
              (vars2, w2) =
                (if currentPhase \<noteq> lastPhase vars
                 then (vars\<lparr>lastPhase := currentPhase\<rparr>, consoleLog (OrderPhase currentPhase) w1)
                 else (vars, w1));
              (vars3, w3) =
                (if currentPaymentStatus \<noteq> lastPaymentStatus vars2
                 then (vars2\<lparr>lastPaymentStatus := currentPaymentStatus\<rparr>,
                       consoleLog (PaymentStatus currentPaymentStatus) w2)
                 else (vars2, w2))
          in if truthy (preparedTransaction ord) then (Returned statusResponse, vars3, w3)
             else (case paymentStatusOf ord of
                     Some s \<Rightarrow>
                       if s = ''failed'' \<or> s = ''canceled''
                       then (Thrown (PaymentTerminallyFailed s), vars3, w3)
                       else (Completed, vars3, sleep delayMs w3)
                   | None \<Rightarrow> (Completed, vars3, sleep delayMs w3)))"

text \<open>
  The \<^verbatim>\<open>while\<close> loop with its \<^verbatim>\<open>catch\<close> block. The counter is incremented before the
  \<^verbatim>\<open>try\<close> block, and the \<^verbatim>\<open>catch\<close> block sees every error thrown inside it: the errors
  of \<^verbatim>\<open>getOrderStatus\<close> and the error the block throws itself on a terminal status.
\<close>

function waitLoop ::
  "gateway \<Rightarrow> string \<Rightarrow> string \<Rightarrow> nat \<Rightarrow> nat \<Rightarrow> nat \<Rightarrow> poll_vars \<Rightarrow> world
   \<Rightarrow> (error + OrderStatusResponse) \<times> world" where
  "waitLoop gw oid apiKey maxAttempts delayMs attempts vars w =
     (if attempts < maxAttempts then
        (case pollAttempt gw oid apiKey delayMs vars w of
           (Returned statusResponse, vars', w') \<Rightarrow> (Inr statusResponse, w')
         | (Thrown e, vars', w') \<Rightarrow>
             if attempts + 1 \<ge> maxAttempts then (Inl e, w')
             else waitLoop gw oid apiKey maxAttempts delayMs (attempts + 1) vars'
                    (sleep delayMs (consoleLog (ErrorPollingOrderStatus e) w'))
         | (Completed, vars', w') \<Rightarrow>
             waitLoop gw oid apiKey maxAttempts delayMs (attempts + 1) vars' w')
      else (Inl (PreparationTimeout maxAttempts), w))"
  by pat_completeness auto
termination
  by (relation "measure (\<lambda>(gw, oid, apiKey, maxAttempts, delayMs, attempts, vars, w).
        maxAttempts - attempts)") auto

declare waitLoop.simps [simp del]

definition waitForPaymentPreparation ::
  "gateway \<Rightarrow> string \<Rightarrow> string \<Rightarrow> nat \<Rightarrow> nat \<Rightarrow> world \<Rightarrow> (error + OrderStatusResponse) \<times> world" where
  "waitForPaymentPreparation gw oid apiKey maxAttempts delayMs w =
     waitLoop gw oid apiKey maxAttempts delayMs 0 \<lparr>lastPhase = [], lastPaymentStatus = []\<rparr> w"

text \<open>
  The conditions of the loop on one status response: a serialized transaction is there
  (the \<^verbatim>\<open>return\<close>), the payment status is terminal (the \<^verbatim>\<open>throw\<close>); and a result
  of \<^verbatim>\<open>getOrderStatus\<close> that is neither of these nor an error.
\<close>

definition ready :: "OrderStatusResponse \<Rightarrow> bool" where
  "ready r = truthy (preparedTransaction (orderOf r))"

definition terminal :: "OrderStatusResponse \<Rightarrow> bool" where
  "terminal r =
     (paymentStatusOf (orderOf r) = Some ''failed'' \<or> paymentStatusOf (orderOf r) = Some ''canceled'')"

definition pending :: "error + OrderStatusResponse \<Rightarrow> bool" where
  "pending x = (case x of Inl e \<Rightarrow> False | Inr r \<Rightarrow> \<not> ready r \<and> \<not> terminal r)"

text \<open>
  A result of \<^verbatim>\<open>getOrderStatus\<close> after which the loop sleeps and polls again while
  attempts remain: a thrown error, or a pending response.
\<close>

definition retried :: "error + OrderStatusResponse \<Rightarrow> bool" where
  "retried x = (case x of Inl e \<Rightarrow> True | Inr r \<Rightarrow> \<not> ready r \<and> \<not> terminal r)"

section \<open>Example snapshots\<close>

text \<open>
  Concrete orders and status responses for the runs evaluated below, in the nested and in
  the flattened shape.
\<close>

definition exampleQuote :: "string \<Rightarrow> OrderQuote" where
  "exampleQuote status =
     \<lparr>quote_status = status, quotedAt = None, expiresAt = None, totalPrice = None\<rparr>"

definition exampleOrder :: "string \<Rightarrow> string \<Rightarrow> string option \<Rightarrow> Order" where
  "exampleOrder status method tx =
     \<lparr>orderId = Some ''order-1'', phase = Some ''payment'',
      quote = Some (exampleQuote ''valid''),
      payment = Some \<lparr>payment_status = status, payment_method = method,
                      payment_currency = ''usdc'',
                      preparation =
                        map_option (\<lambda>t. \<lparr>serializedTransaction = Some t, otherKeys = []\<rparr>) tx\<rparr>\<rparr>"

definition nested :: "Order \<Rightarrow> OrderStatusResponse" where
  "nested ord =
     \<lparr>orderId = None, phase = None, quote = None, payment = None,
      clientSecret = None, order = Some ord\<rparr>"

definition flattened :: "Order \<Rightarrow> OrderStatusResponse" where
  "flattened ord =
     \<lparr>orderId = orderId ord, phase = phase ord, quote = quote ord, payment = payment ord,
      clientSecret = None, order = None\<rparr>"

definition pendingResponse :: OrderStatusResponse where
  "pendingResponse = nested (exampleOrder ''awaiting-payment'' ''polygon-amoy'' None)"

definition readyResponse :: OrderStatusResponse where
  "readyResponse = flattened (exampleOrder ''awaiting-payment'' ''polygon-amoy'' (Some ''0x02f8''))"

definition failedResponse :: OrderStatusResponse where
  "failedResponse = nested (exampleOrder ''failed'' ''polygon-amoy'' None)"

section \<open>Payment signer (src/payment.ts, in src/unnamed/part_002: processPayment)\<close>

record receipt =
  transactionHash :: string
  blockNumber :: nat

text \<open>
  The chain client (the \<^verbatim>\<open>ethers\<close> library) is the environment. \<open>newWallet\<close> tells
  whether \<^verbatim>\<open>new ethers.Wallet(privateKey, provider)\<close> accepts the key;
  \<open>parseTransaction\<close> decodes a serialized transaction or throws; \<open>sendTransaction\<close>,
  for an RPC endpoint, a key and a decoded transaction, gives the hash of the
  transaction sent or throws; \<open>wait\<close> gives the receipt or throws. \<open>Inl\<close> is the
  message of what is thrown.
\<close>

record ethers =
  newWallet :: "string \<Rightarrow> bool"
  parseTransaction :: "string \<Rightarrow> string + string"
  sendTransaction :: "string \<Rightarrow> string \<Rightarrow> string \<Rightarrow> string + string"
  wait :: "string \<Rightarrow> string \<Rightarrow> string + receipt"

text \<open>
  The \<^verbatim>\<open>if\<close> chain of \<^verbatim>\<open>processPayment\<close> that assigns the variable \<^verbatim>\<open>rpcUrl\<close> from
  \<^verbatim>\<open>order.payment.method\<close>, in the order of the source.
\<close>

definition rpcUrl :: "string \<Rightarrow> string" where
  "rpcUrl method =
     (if method = ''base'' then ''https://mainnet.base.org''
      else if method = ''base-sepolia'' then ''https://sepolia.base.org''
      else if method = ''polygon'' then ''https://polygon-rpc.com/''
      else if method = ''polygon-amoy'' then ''https://rpc-amoy.polygon.technology/''
      else ''https://rpc-amoy.polygon.technology/'')"

text \<open>
  \<^verbatim>\<open>processPayment(order, privateKey)\<close>. The two status checks come first, each reading a
  property of \<^verbatim>\<open>order.payment\<close> or \<^verbatim>\<open>order.quote\<close>; then the two console lines; then
  the serialized transaction is looked up and tested with \<^verbatim>\<open>!serializedTransaction\<close>;
  then the endpoint, the provider and the wallet; and the \<^verbatim>\<open>try\<close> block, whose
  \<^verbatim>\<open>catch\<close> logs and rethrows. The call of \<^verbatim>\<open>wallet.sendTransaction\<close> is recorded in
  \<open>submissions\<close> with the endpoint and the serialized transaction it was decoded from.
\<close>

definition processPayment :: "ethers \<Rightarrow> Order \<Rightarrow> string \<Rightarrow> world \<Rightarrow> (error + receipt) \<times> world" where
  "processPayment eth ord privateKey w =
     (case payment ord of
        None \<Rightarrow> (Inl UndefinedProperty, w)
      | Some pay \<Rightarrow>
          if payment_status pay = ''crypto-payer-insufficient-funds'' then (Inl InsufficientFunds, w)
          else
            (case quote ord of
               None \<Rightarrow> (Inl UndefinedProperty, w)
             | Some q \<Rightarrow>
                 if quote_status q = ''requires-physical-address'' then (Inl AddressRequired, w)
                 else
                   let w1 = consoleLog (PaymentMethod (payment_method pay))
                              (consoleLog (PaymentStatus (payment_status pay)) w);
                       prepared =
                         (case preparation pay of
                            None \<Rightarrow> None
                          | Some prep \<Rightarrow> serializedTransaction prep)
                   in (case prepared of
                         None \<Rightarrow> (Inl (PaymentPayloadMissing ord), w1)
                       | Some tx \<Rightarrow>
                           if tx = [] then (Inl (PaymentPayloadMissing ord), w1)
                           else if \<not> newWallet eth privateKey then (Inl InvalidPrivateKey, w1)
                           else
                             (case parseTransaction eth tx of
                                Inl msg \<Rightarrow>
                                  (Inl (TransactionSubmissionFailed msg),
                                   consoleLog (ErrorSendingTransaction (TransactionSubmissionFailed msg)) w1)
                              | Inr parsedTransaction \<Rightarrow>
                                  let w2 = w1\<lparr>submissions :=
                                             submissions w1 @ [(rpcUrl (payment_method pay), tx)]\<rparr>
                                  in (case sendTransaction eth (rpcUrl (payment_method pay)) privateKey
                                             parsedTransaction of
                                        Inl msg \<Rightarrow>
                                          (Inl (TransactionSubmissionFailed msg),
                                           consoleLog (ErrorSendingTransaction
                                             (TransactionSubmissionFailed msg)) w2)
                                      | Inr hash \<Rightarrow>
                                          let w3 = consoleLog (TransactionSent hash) w2
                                          in (case wait eth (rpcUrl (payment_method pay)) hash of
                                                Inl msg \<Rightarrow>
                                                  (Inl (TransactionSubmissionFailed msg),
                                                   consoleLog (ErrorSendingTransaction
                                                     (TransactionSubmissionFailed msg)) w3)
                                              | Inr rcpt \<Rightarrow>
                                                  (Inr rcpt,
                                                   consoleLog (TransactionConfirmed (blockNumber rcpt))
                                                     w3)))))))"

text \<open>A chain client that accepts every key and transaction, for concrete runs.\<close>

definition exampleEthers :: ethers where
  "exampleEthers =
     \<lparr>newWallet = (\<lambda>key. True),
      parseTransaction = (\<lambda>tx. Inr tx),
      sendTransaction = (\<lambda>url key tx. Inr ''0xabc''),
      wait = (\<lambda>url hash. Inr \<lparr>transactionHash = hash, blockNumber = 7\<rparr>)\<rparr>"

section \<open>The buy command (src/cli.ts, in src/unnamed/part_001)\<close>

text \<open>
  The loop that monitors the order after the payment step: at most ten
  \<^verbatim>\<open>getOrderStatus\<close> calls five seconds apart, change-only logging, a stop on a
  completed payment or order with one more \<^verbatim>\<open>getOrderStatus\<close> call for the summary, and
  a \<^verbatim>\<open>break\<close> on the first error. The summary is one console entry with the total
  price, the currency and the payment status.
\<close>

function monitorLoop ::
  "gateway \<Rightarrow> string \<Rightarrow> string \<Rightarrow> nat \<Rightarrow> string \<Rightarrow> string \<Rightarrow> world \<Rightarrow> world" where
  "monitorLoop gw oid apiKey attempts currentPhase currentPaymentStatus w =
     (if attempts < 10 then
        (case callGetOrderStatus gw oid apiKey w of
           (Inl e, w1) \<Rightarrow> consoleLog (ErrorCheckingStatus e) w1
         | (Inr statusResponse, w1) \<Rightarrow>
             let ord = orderOf statusResponse;
                 phase' = orElse (phase ord) ''unknown'';
                 paymentStatus = orElse (paymentStatusOf ord) ''unknown'';
                 w2 = (if phase' \<noteq> currentPhase then consoleLog (OrderPhase phase') w1 else w1);
                 w3 = (if paymentStatus \<noteq> currentPaymentStatus
                       then consoleLog (PaymentStatus paymentStatus) w2 else w2)
             in if paymentStatus = ''completed'' \<or> phase' = ''complete'' then
                  (case callGetOrderStatus gw oid apiKey w3 of
                     (Inl e, w4) \<Rightarrow> consoleLog (ErrorFinalDetails e) w4
                   | (Inr finalOrderDetails, w4) \<Rightarrow>
                       let orderData = orderOf finalOrderDetails;
                           price = (case quote orderData of
                                      None \<Rightarrow> None
                                    | Some q \<Rightarrow> totalPrice q)
                       in consoleLog
                            (OrderDetails (orElse (map_option fst price) ''9.79'')
                               (orElse (map_option snd price) ''USDC'') paymentStatus) w4)
                else monitorLoop gw oid apiKey (attempts + 1) phase' paymentStatus (sleep 5000 w3))
      else w)"
  by pat_completeness auto
termination
  by (relation "measure (\<lambda>(gw, oid, apiKey, attempts, currentPhase, currentPaymentStatus, w).
        10 - attempts)") auto

declare monitorLoop.simps [simp del]

text \<open>
  The \<^verbatim>\<open>buy\<close> action from the result of \<^verbatim>\<open>buyProductWithCrypto\<close> on: \<open>result\<close> is what
  that call gave, an error (the action then reports it and exits) or the order
  identifier with its quote status; \<open>envPrivateKey\<close> is \<^verbatim>\<open>process.env.PRIVATE_KEY\<close>.
  Nothing before that point reaches the chain client or \<^verbatim>\<open>getOrderStatus\<close>: order
  creation posts to the checkout service and derives the payer address from the key.
  The payment step calls \<^verbatim>\<open>waitForPaymentPreparation\<close> with its default budget and
  then \<^verbatim>\<open>processPayment\<close>, both inside one \<^verbatim>\<open>try\<close> block whose \<^verbatim>\<open>catch\<close> only logs;
  the monitoring loop follows for a valid quote.
\<close>

definition buyAction ::
  "gateway \<Rightarrow> ethers \<Rightarrow> string \<Rightarrow> string option \<Rightarrow> error + (string \<times> string) \<Rightarrow> world \<Rightarrow> world" where
  "buyAction gw eth apiKey envPrivateKey result w =
     (case result of
        Inl e \<Rightarrow> w
      | Inr (oid, status) \<Rightarrow>
          let w1 =
                (if status = ''requires-physical-address'' then consoleLog RequiresAddress w
                 else if status = ''valid'' then
                   (let w' = consoleLog ReadyForPayment w
                    in case envPrivateKey of
                         None \<Rightarrow> consoleLog NoPrivateKey w'
                       | Some privateKey \<Rightarrow>
                           if privateKey = [] then consoleLog NoPrivateKey w'
                           else
                             (case waitForPaymentPreparation gw oid apiKey
                                     DEFAULT_POLLING_MAX_ATTEMPTS DEFAULT_POLLING_DELAY_MS w' of
                                (Inl e, w2) \<Rightarrow>
                                  consoleLog CompleteManually (consoleLog (ErrorProcessingPayment e) w2)
                              | (Inr paymentStatusResponse, w2) \<Rightarrow>
                                  let orderWithPayment = orderOf paymentStatusResponse
                                  in (case processPayment eth orderWithPayment privateKey
                                             (consoleLog ProcessingPayment w2) of
                                        (Inl e, w3) \<Rightarrow>
                                          consoleLog CompleteManually
                                            (consoleLog (ErrorProcessingPayment e) w3)
                                      | (Inr rcpt, w3) \<Rightarrow> consoleLog PaymentProcessed w3)))
                 else w)
          in if status = ''valid''
             then monitorLoop gw oid apiKey 0 ''created'' ''unknown'' (consoleLog MonitoringOrder w1)
             else w1)"

section \<open>Order gateway (src/index.ts, getOrderStatus)\<close>

text \<open>
  The response body \<^verbatim>\<open>response.data\<close> has type \<^verbatim>\<open>any\<close>, and the normalisation works
  on its shape, so \<^verbatim>\<open>getOrderStatus\<close> is modelled on JSON values; its callers read the
  result through the interface above. The truthiness of a JSON value, and of a property
  that may be undefined:
\<close>

fun jsTruthy :: "json \<Rightarrow> bool" where
  "jsTruthy JNull = False"
| "jsTruthy (JBool b) = b"
| "jsTruthy (JNum n) = (n \<noteq> 0)"
| "jsTruthy (JStr s) = (s \<noteq> [])"
| "jsTruthy (JArr xs) = True"
| "jsTruthy (JObj ps) = True"

text \<open>
  \<^verbatim>\<open>value.key\<close> for the keys read here: the property of an object, undefined on every
  other value that is not \<^verbatim>\<open>null\<close> (reading a property of \<^verbatim>\<open>null\<close> throws; the caller
  below treats that case before it reads).
\<close>

definition property :: "json \<Rightarrow> string \<Rightarrow> json option" where
  "property v key = (case v of JObj ps \<Rightarrow> map_of ps key | _ \<Rightarrow> None)"

definition truthyProp :: "json option \<Rightarrow> bool" where
  "truthyProp x = (case x of None \<Rightarrow> False | Some v \<Rightarrow> jsTruthy v)"

text \<open>\<^verbatim>\<open>x || fallback\<close>.\<close>

definition orDefault :: "json option \<Rightarrow> json \<Rightarrow> json" where
  "orDefault x fallback =
     (case x of
        None \<Rightarrow> fallback
      | Some v \<Rightarrow> if jsTruthy v then v else fallback)"

text \<open>
  Defining a property on an object: an existing key keeps its place and takes the new
  value, a new key goes last. The spread \<^verbatim>\<open>{ order: ..., ...data }\<close> defines the
  properties of \<^verbatim>\<open>data\<close>, in their order, on the object written before it.
\<close>

fun setProp :: "string \<Rightarrow> json \<Rightarrow> (string \<times> json) list \<Rightarrow> (string \<times> json) list" where
  "setProp key v [] = [(key, v)]"
| "setProp key v ((key', v') # ps) =
     (if key' = key then (key, v) # ps else (key', v') # setProp key v ps)"

fun spreadInto :: "(string \<times> json) list \<Rightarrow> (string \<times> json) list \<Rightarrow> (string \<times> json) list" where
  "spreadInto obj [] = obj"
| "spreadInto obj ((key, v) # ps) = spreadInto (setProp key v obj) ps"

definition ownProperties :: "json \<Rightarrow> (string \<times> json) list" where
  "ownProperties v = (case v of JObj ps \<Rightarrow> ps | _ \<Rightarrow> [])"

definition getApiBaseUrl :: "string \<Rightarrow> string" where
  "getApiBaseUrl apiKey =
     (if apiKey \<noteq> [] \<and> prefix ''sk_production_'' apiKey
      then ''https://www.crossmint.com/api/2022-06-09''
      else ''https://staging.crossmint.com/api/2022-06-09'')"

text \<open>
  What \<^verbatim>\<open>axios.get\<close> throws: an error with a response (its status and body) or one
  without (its text). The checkout service is the environment: for a URL and an API key
  it gives the body of a successful response or such a failure.
\<close>

datatype axios_error =
    WithResponse nat json
  | WithoutResponse string

type_synonym service = "string \<Rightarrow> string \<Rightarrow> axios_error + json"

text \<open>
  \<^verbatim>\<open>getOrderStatus(orderId, apiKey)\<close>, with \<^verbatim>\<open>process.env.NODE_ENV\<close> as \<open>nodeEnv\<close>. In
  test mode and for a mock order the service is not called. A body \<^verbatim>\<open>null\<close> makes
  \<^verbatim>\<open>data.order\<close> throw inside the \<^verbatim>\<open>try\<close> block, which the \<^verbatim>\<open>catch\<close> block rethrows as
  a failure without a response, whose text is \<^verbatim>\<open>String(error)\<close> of that \<^verbatim>\<open>TypeError\<close>
  (the wording of Node.js). The test \<^verbatim>\<open>!data.order && data.orderId\<close> reads
  \<^verbatim>\<open>data.orderId\<close> once here, for the test and for the new object.
\<close>

definition getOrderStatus :: "string option \<Rightarrow> service \<Rightarrow> string \<Rightarrow> string \<Rightarrow> error + json" where
  "getOrderStatus nodeEnv axiosGet oid apiKey =
     (if nodeEnv = Some ''test'' \<or> prefix ''mock-order-'' oid then
        Inr (JObj [(''order'',
               JObj [(''orderId'', JStr oid), (''phase'', JStr ''payment''),
                     (''quote'', JObj [(''status'', JStr ''valid'')])])])
      else
        (case axiosGet (getApiBaseUrl apiKey @ ''/orders/'' @ oid) apiKey of
           Inl (WithResponse status body) \<Rightarrow> Inl (RemoteRequestFailed status body)
         | Inl (WithoutResponse text) \<Rightarrow> Inl (RemoteUnreachable text)
         | Inr data \<Rightarrow>
             if data = JNull then
               Inl (RemoteUnreachable
                      ''TypeError: Cannot read properties of null (reading 'order')'')
             else
               (case property data ''orderId'' of
                  None \<Rightarrow> Inr data
                | Some orderIdValue \<Rightarrow>
                    if \<not> truthyProp (property data ''order'') \<and> jsTruthy orderIdValue then
                      Inr (JObj (spreadInto
                             [(''order'',
                               JObj [(''orderId'', orderIdValue),
                                     (''phase'', orDefault (property data ''phase'') (JStr ''unknown'')),
                                     (''quote'', orDefault (property data ''quote'')
                                        (JObj [(''status'', JStr ''unknown'')])),
                                     (''payment'', orDefault (property data ''payment'')
                                        (JObj [(''status'', JStr ''unknown''),
                                               (''method'', JStr ''unknown''),
                                               (''currency'', JStr ''unknown'')]))])]
                             (ownProperties data)))
                    else Inr data)))"

text \<open>\<^verbatim>\<open>result.order.key\<close>, undefined when there is no \<^verbatim>\<open>order\<close>.\<close>

definition orderProp :: "json \<Rightarrow> string \<Rightarrow> json option" where
  "orderProp res key = (case property res ''order'' of None \<Rightarrow> None | Some ord \<Rightarrow> property ord key)"

text \<open>A service that answers every request with the same body, and a flattened body.\<close>

definition serviceReturning :: "json \<Rightarrow> service" where
  "serviceReturning body url apiKey = Inr body"

definition flatBody :: "string \<Rightarrow> string \<Rightarrow> json" where
  "flatBody oid ph =
     JObj [(''orderId'', JStr oid), (''phase'', JStr ph),
           (''quote'', JObj [(''status'', JStr ''valid'')]),
           (''payment'', JObj [(''status'', JStr ''awaiting-payment''),
                              (''method'', JStr ''polygon-amoy''),
                              (''currency'', JStr ''usdc'')]),
           (''clientSecret'', JStr ''secret'')]"

text \<open>
  An order that passes every check of \<^verbatim>\<open>processPayment\<close> before the endpoint is
  chosen: a payment that is not short of funds, a quote that does not ask for an address,
  and a non-empty serialized transaction \<open>tx\<close>.
\<close>

definition payable :: "Order \<Rightarrow> OrderPayment \<Rightarrow> string \<Rightarrow> bool" where
  "payable ord pay tx =
     (payment ord = Some pay
      \<and> payment_status pay \<noteq> ''crypto-payer-insufficient-funds''
      \<and> (case quote ord of
            None \<Rightarrow> False
          | Some q \<Rightarrow> quote_status q \<noteq> ''requires-physical-address'')
      \<and> preparedTransaction ord = Some tx \<and> tx \<noteq> [])"

section \<open>Properties of identifier extraction\<close>

lemma asinPatternAt_Some_slash:
  "asinPatternAt s = Some a \<Longrightarrow> CHR ''/'' \<in> set s"
  by (auto simp: asinPatternAt_def split: list.splits if_splits)

lemma asinPatternSearch_no_slash:
  "CHR ''/'' \<notin> set s \<Longrightarrow> asinPatternSearch s = None"
proof (induction s)
  case Nil
  show ?case by simp
next
  case (Cons c cs)
  have "asinPatternAt (c # cs) = None"
  proof (cases "asinPatternAt (c # cs)")
    case None
    then show ?thesis .
  next
    case (Some a)
    from asinPatternAt_Some_slash [OF Some] Cons.prems show ?thesis by simp
  qed
  moreover have "asinPatternSearch cs = None"
    using Cons by simp
  ultimately show ?case by simp
qed

lemma asinChar_not_slash: "asinChar c \<Longrightarrow> c \<noteq> CHR ''/''"
  by (auto simp: asinChar_def)

lemma asinOnly_no_slash: "asinOnly code \<Longrightarrow> CHR ''/'' \<notin> set code"
  by (auto simp: asinOnly_def list_all_iff dest: asinChar_not_slash)

lemma asinPatternAt_code: "asinOnly code \<Longrightarrow> asinPatternAt (CHR ''/'' # code) = Some code"
  by (simp add: asinPatternAt_def asinOnly_def)

lemma asinPatternAt_extend:
  assumes "asinPatternAt (s @ ''/'') = None" "s \<noteq> []"
  shows "asinPatternAt (s @ ''/'' @ code) = None"
proof -
  from assms(2) obtain c rest where s: "s = c # rest" by (cases s) auto
  define t where "t = rest @ ''/'' @ code"
  define u where "u = rest @ ''/''"
  have full: "s @ ''/'' @ code = c # t" and short: "s @ ''/'' = c # u"
    by (simp_all add: s t_def u_def)
  show ?thesis
  proof (cases "length rest < 10")
    case True
    then have "take 10 t ! length rest = CHR ''/''"
      by (simp add: t_def nth_append)
    moreover from True have "length rest < length (take 10 t)"
      by (simp add: t_def)
    ultimately have "CHR ''/'' \<in> set (take 10 t)"
      by (metis nth_mem)
    then have "\<not> list_all asinChar (take 10 t)"
      using asinChar_not_slash by (auto simp: list_all_iff)
    then show ?thesis unfolding full by (simp add: asinPatternAt_def)
  next
    case False
    then have tk: "take 10 t = take 10 u" and len: "10 \<le> length u"
      by (simp_all add: t_def u_def)
    have hd: "(case drop 10 t of [] \<Rightarrow> True | d # _ \<Rightarrow> d = CHR ''/'' \<or> d = CHR ''?'')
            = (case drop 10 u of [] \<Rightarrow> True | d # _ \<Rightarrow> d = CHR ''/'' \<or> d = CHR ''?'')"
      using False by (cases "drop 10 rest") (simp_all add: t_def u_def)
    from assms(1) have "\<not> (c = CHR ''/'' \<and> list_all asinChar (take 10 u)
        \<and> (case drop 10 u of [] \<Rightarrow> True | d # _ \<Rightarrow> d = CHR ''/'' \<or> d = CHR ''?''))"
      unfolding short using len by (auto simp: asinPatternAt_def split: if_splits)
    then show ?thesis unfolding full by (simp add: asinPatternAt_def tk hd)
  qed
qed

lemma asinPatternSearch_final:
  assumes "asinOnly code"
  shows "asinPatternSearch (p @ ''/'') = None \<Longrightarrow> asinPatternSearch (p @ ''/'' @ code) = Some code"
proof (induction p)
  case Nil
  then show ?case using asinPatternAt_code [OF assms] by simp
next
  case (Cons c cs)
  from Cons.prems have a: "asinPatternAt ((c # cs) @ ''/'') = None"
    and b: "asinPatternSearch (cs @ ''/'') = None"
    by (auto split: option.splits)
  from asinPatternAt_extend [OF a] have "asinPatternAt ((c # cs) @ ''/'' @ code) = None" by simp
  with Cons.IH [OF b] show ?case by simp
qed


lemma asinPatternSearch_prefix:
  "asinPatternSearch (p @ ''/'') = None
   \<Longrightarrow> asinPatternSearch (p @ ''/'' @ t) = asinPatternSearch (''/'' @ t)"
proof (induction p)
  case Nil
  show ?case by simp
next
  case (Cons c cs)
  from Cons.prems have a: "asinPatternAt ((c # cs) @ ''/'') = None"
    and b: "asinPatternSearch (cs @ ''/'') = None"
    by (auto split: option.splits)
  from asinPatternAt_extend [OF a] have "asinPatternAt ((c # cs) @ ''/'' @ t) = None" by simp
  with Cons.IH [OF b] show ?case by simp
qed

lemma asinPatternAt_code_rest:
  assumes "asinOnly code"
  shows "asinPatternAt (CHR ''/'' # code @ rest) = (if asinTerminator rest then Some code else None)"
  using assms by (simp add: asinPatternAt_def asinOnly_def asinTerminator_def)

lemma asinPatternSearch_code_rest:
  assumes "asinOnly code" "asinPatternSearch (p @ ''/'') = None"
  shows "asinTerminator rest \<Longrightarrow> asinPatternSearch (p @ ''/'' @ code @ rest) = Some code"
    and "\<not> asinTerminator rest \<Longrightarrow> CHR ''/'' \<notin> set rest
         \<Longrightarrow> asinPatternSearch (p @ ''/'' @ code @ rest) = None"
proof -
  have eq: "asinPatternSearch (p @ ''/'' @ code @ rest) = asinPatternSearch (CHR ''/'' # code @ rest)"
    using asinPatternSearch_prefix [OF assms(2), of "code @ rest"] by simp
  note at = asinPatternAt_code_rest [OF assms(1), of rest]
  show "asinTerminator rest \<Longrightarrow> asinPatternSearch (p @ ''/'' @ code @ rest) = Some code"
    unfolding eq using at by simp
  assume n: "\<not> asinTerminator rest" and s: "CHR ''/'' \<notin> set rest"
  from s asinOnly_no_slash [OF assms(1)] have "CHR ''/'' \<notin> set (code @ rest)" by simp
  then have "asinPatternSearch (code @ rest) = None" by (rule asinPatternSearch_no_slash)
  with n show "asinPatternSearch (p @ ''/'' @ code @ rest) = None"
    unfolding eq using at by simp
qed

text \<open>
  Claim C8, as amended. The pattern returns the leftmost slash-delimited ten-character
  code, and it accepts a code only when the code ends the text or is followed by a slash
  or a question mark. For every valid code (ten characters of \<^verbatim>\<open>[A-Z0-9]\<close>) and every
  prefix \<open>p\<close> in which no earlier path segment is itself such a code (extraction finds
  nothing in \<open>p\<close> followed by a slash): extraction on \<open>p\<close>, a slash, the code and a rest
  returns exactly the code when the rest is empty or starts with a slash or a question
  mark, so the code may be the final path segment of a URL with or without a query
  string; and it returns null when the rest starts with any other character and holds no
  slash, as a fragment put straight after the code does. This holds for
  \<^verbatim>\<open>AmazonSource.extractProductId\<close> and for \<^verbatim>\<open>extractAsinFromUrl\<close>. Extraction on
  \<^verbatim>\<open>https://example.com/dp/B01DFKC2SO\<close> returns \<^verbatim>\<open>B01DFKC2SO\<close>, and extraction on
  \<^verbatim>\<open>https://example.com/no-code-here\<close> returns null.
\<close>

theorem extract_final_segment:
  "(asinOnly code \<and> extractProductId (p @ ''/'') = None \<and> asinTerminator rest \<longrightarrow>
      extractProductId (p @ ''/'' @ code @ rest) = Some code
      \<and> extractAsinFromUrl (p @ ''/'' @ code @ rest) = Some code)
   \<and> (asinOnly code \<and> extractProductId (p @ ''/'') = None
        \<and> \<not> asinTerminator rest \<and> CHR ''/'' \<notin> set rest \<longrightarrow>
      extractProductId (p @ ''/'' @ code @ rest) = None
      \<and> extractAsinFromUrl (p @ ''/'' @ code @ rest) = None)
   \<and> extractProductId ''https://example.com/dp/B01DFKC2SO'' = Some ''B01DFKC2SO''
   \<and> extractAsinFromUrl ''https://example.com/dp/B01DFKC2SO'' = Some ''B01DFKC2SO''
   \<and> extractProductId ''https://example.com/no-code-here'' = None
   \<and> extractAsinFromUrl ''https://example.com/no-code-here'' = None"
proof -
  have "extractProductId ''https://example.com/dp/B01DFKC2SO'' = Some ''B01DFKC2SO''"
    by (simp add: extractProductId_def asinPatternAt_def asinChar_def)
  moreover have "extractProductId ''https://example.com/no-code-here'' = None"
    by (simp add: extractProductId_def asinPatternAt_def asinChar_def)
  moreover have "asinOnly code \<and> extractProductId (p @ ''/'') = None \<and> asinTerminator rest \<longrightarrow>
      extractProductId (p @ ''/'' @ code @ rest) = Some code"
    using asinPatternSearch_code_rest(1) [of code p rest] by (simp add: extractProductId_def)
  moreover have "asinOnly code \<and> extractProductId (p @ ''/'') = None
        \<and> \<not> asinTerminator rest \<and> CHR ''/'' \<notin> set rest \<longrightarrow>
      extractProductId (p @ ''/'' @ code @ rest) = None"
    using asinPatternSearch_code_rest(2) [of code p rest] by (simp add: extractProductId_def)
  ultimately show ?thesis
    by (simp add: extractProductId_def extractAsinFromUrl_def)
qed

theorem extract_final_segment_witness:
  "asinOnly ''B01DFKC2SO''
   \<and> extractProductId (''https://www.amazon.com/dp'' @ ''/'') = None
   \<and> asinTerminator [] \<and> asinTerminator ''?tag=x''
   \<and> \<not> asinTerminator ''#reviews'' \<and> CHR ''/'' \<notin> set ''#reviews''
   \<and> extractProductId (''https://www.amazon.com/dp'' @ ''/'' @ ''B01DFKC2SO'' @ [])
       = Some ''B01DFKC2SO''
   \<and> extractProductId (''https://www.amazon.com/dp'' @ ''/'' @ ''B01DFKC2SO'' @ ''?tag=x'')
       = Some ''B01DFKC2SO''
   \<and> extractAsinFromUrl (''https://www.amazon.com/dp'' @ ''/'' @ ''B01DFKC2SO'' @ ''?tag=x'')
       = Some ''B01DFKC2SO''
   \<and> extractProductId (''https://www.amazon.com/dp'' @ ''/'' @ ''B01DFKC2SO'' @ ''#reviews'')
       = None
   \<and> extractAsinFromUrl (''https://www.amazon.com/dp'' @ ''/'' @ ''B01DFKC2SO'' @ ''#reviews'')
       = None"
proof -
  have h1: "asinOnly ''B01DFKC2SO''"
    by (simp add: asinOnly_def asinChar_def)
  have h2: "extractProductId (''https://www.amazon.com/dp'' @ ''/'') = None"
    by (simp add: extractProductId_def asinPatternAt_def asinChar_def)
  have t: "asinTerminator []" "asinTerminator ''?tag=x''"
    "\<not> asinTerminator ''#reviews''" "CHR ''/'' \<notin> set ''#reviews''"
    by (simp_all add: asinTerminator_def)
  note a = extract_final_segment [where code = "''B01DFKC2SO''"
      and p = "''https://www.amazon.com/dp''" and rest = "[]"]
  note b = extract_final_segment [where code = "''B01DFKC2SO''"
      and p = "''https://www.amazon.com/dp''" and rest = "''?tag=x''"]
  note c = extract_final_segment [where code = "''B01DFKC2SO''"
      and p = "''https://www.amazon.com/dp''" and rest = "''#reviews''"]
  from a h1 h2 t have a': "extractProductId (''https://www.amazon.com/dp'' @ ''/'' @ ''B01DFKC2SO'' @ [])
       = Some ''B01DFKC2SO''" by blast
  from b h1 h2 t have b': "extractProductId (''https://www.amazon.com/dp'' @ ''/'' @ ''B01DFKC2SO'' @ ''?tag=x'')
       = Some ''B01DFKC2SO''"
    "extractAsinFromUrl (''https://www.amazon.com/dp'' @ ''/'' @ ''B01DFKC2SO'' @ ''?tag=x'')
       = Some ''B01DFKC2SO''" by blast+
  from c h1 h2 t have c': "extractProductId (''https://www.amazon.com/dp'' @ ''/'' @ ''B01DFKC2SO'' @ ''#reviews'')
       = None"
    "extractAsinFromUrl (''https://www.amazon.com/dp'' @ ''/'' @ ''B01DFKC2SO'' @ ''#reviews'')
       = None" by blast+
  from h1 h2 t a' b' c' show ?thesis by blast
qed

text \<open>
  Claim C8, as stated, fails in two ways. In
  \<^verbatim>\<open>https://example.com/PRODUCT123/B01DFKC2SO\<close> the valid code \<^verbatim>\<open>B01DFKC2SO\<close> is the
  final path segment, and both extraction functions return the earlier segment
  \<^verbatim>\<open>PRODUCT123\<close>. In \<^verbatim>\<open>https://example.com/dp/B01DFKC2SO#reviews\<close> the code is the
  final path segment again, followed by a fragment, and both functions return null.
\<close>

theorem extract_final_segment_counterexample:
  "asinOnly ''B01DFKC2SO''
   \<and> ''https://example.com/PRODUCT123/B01DFKC2SO''
       = ''https://example.com/PRODUCT123'' @ ''/'' @ ''B01DFKC2SO''
   \<and> extractProductId ''https://example.com/PRODUCT123/B01DFKC2SO'' = Some ''PRODUCT123''
   \<and> extractAsinFromUrl ''https://example.com/PRODUCT123/B01DFKC2SO'' = Some ''PRODUCT123''
   \<and> Some ''PRODUCT123'' \<noteq> Some ''B01DFKC2SO''
   \<and> extractProductId ''https://example.com/dp/B01DFKC2SO#reviews'' = None
   \<and> extractAsinFromUrl ''https://example.com/dp/B01DFKC2SO#reviews'' = None"
  by (simp add: asinOnly_def extractProductId_def extractAsinFromUrl_def
      asinPatternAt_def asinChar_def)

text \<open>
  Claim C9. For every code matching \<^verbatim>\<open>^[A-Z0-9]{10}$\<close>,
  \<^verbatim>\<open>AmazonSource.createProductLocator(code, true)\<close> equals
  \<^verbatim>\<open>AmazonSource.createProductLocator(code, false)\<close>, and both are the string
  \<^verbatim>\<open>amazon:\<close> followed by the code.
\<close>

theorem createProductLocator_code:
  assumes "asinOnly code"
  shows "createProductLocator code True = createProductLocator code False
         \<and> createProductLocator code True = ''amazon:'' @ code
         \<and> createProductLocator code False = ''amazon:'' @ code"
proof -
  from assms have "extractProductId code = None"
    by (simp add: extractProductId_def asinPatternSearch_no_slash asinOnly_no_slash)
  then show ?thesis by (simp add: createProductLocator_def)
qed

theorem createProductLocator_code_witness:
  "asinOnly ''B01DFKC2SO''
   \<and> createProductLocator ''B01DFKC2SO'' True = createProductLocator ''B01DFKC2SO'' False
   \<and> createProductLocator ''B01DFKC2SO'' True = ''amazon:B01DFKC2SO''
   \<and> createProductLocator ''B01DFKC2SO'' False = ''amazon:B01DFKC2SO''"
proof -
  have h: "asinOnly ''B01DFKC2SO''"
    by (simp add: asinOnly_def asinChar_def)
  from createProductLocator_code [OF h] h show ?thesis by simp
qed

text \<open>
  Claim C10. For every identifier that contains no slash,
  \<^verbatim>\<open>AmazonSource.extractProductId\<close> returns null and
  \<^verbatim>\<open>AmazonSource.validateIdentifier(identifier, true)\<close> returns false; so a bare
  ten-character product code, valid with \<^verbatim>\<open>isUrl = false\<close>, is rejected with
  \<^verbatim>\<open>isUrl = true\<close>.
\<close>

theorem validateIdentifier_no_slash:
  assumes "CHR ''/'' \<notin> set identifier"
  shows "extractProductId identifier = None
         \<and> validateIdentifier identifier True = False
         \<and> (asinOnly identifier \<longrightarrow> validateIdentifier identifier False = True)"
  using assms
  by (simp add: extractProductId_def validateIdentifier_def asinPatternSearch_no_slash)

theorem validateIdentifier_no_slash_witness:
  "CHR ''/'' \<notin> set ''B01DFKC2SO''
   \<and> asinOnly ''B01DFKC2SO''
   \<and> extractProductId ''B01DFKC2SO'' = None
   \<and> validateIdentifier ''B01DFKC2SO'' True = False
   \<and> validateIdentifier ''B01DFKC2SO'' False = True"
proof -
  have h1: "CHR ''/'' \<notin> set ''B01DFKC2SO''" by simp
  have h2: "asinOnly ''B01DFKC2SO''"
    by (simp add: asinOnly_def asinChar_def)
  from validateIdentifier_no_slash [OF h1] h1 h2 show ?thesis by blast
qed

section \<open>Properties of the payment preparation poller\<close>

lemma pollAttempt_ready:
  assumes "gw (Suc (status_calls w)) oid apiKey = Inr r" "ready r"
  shows "\<exists>vars' w'. pollAttempt gw oid apiKey delayMs vars w = (Returned r, vars', w')
           \<and> status_calls w' = Suc (status_calls w) \<and> submissions w' = submissions w"
  using assms
  by (simp add: pollAttempt_def callGetOrderStatus_def ready_def Let_def consoleLog_def sleep_def split: prod.splits)

lemma pollAttempt_pending:
  assumes "pending (gw (Suc (status_calls w)) oid apiKey)"
  shows "\<exists>vars' w'. pollAttempt gw oid apiKey delayMs vars w = (Completed, vars', w')
           \<and> status_calls w' = Suc (status_calls w) \<and> submissions w' = submissions w"
  using assms
  by (auto simp add: pollAttempt_def callGetOrderStatus_def ready_def terminal_def pending_def Let_def consoleLog_def sleep_def split: prod.splits sum.splits option.splits)


lemma waitLoop_ready:
  assumes "gw (status_calls w + n + 1) oid apiKey = Inr r" "ready r"
    and "\<forall>i<n. pending (gw (status_calls w + i + 1) oid apiKey)"
    and "attempts + n < maxAttempts"
  shows "\<exists>w'. waitLoop gw oid apiKey maxAttempts delayMs attempts vars w = (Inr r, w')
           \<and> status_calls w' = status_calls w + n + 1"
  using assms
proof (induction n arbitrary: attempts vars w)
  case 0
  then have "gw (Suc (status_calls w)) oid apiKey = Inr r" by simp
  with \<open>ready r\<close>
  obtain vars' w' where "pollAttempt gw oid apiKey delayMs vars w = (Returned r, vars', w')"
    "status_calls w' = Suc (status_calls w)"
    using pollAttempt_ready [where gw = gw and w = w and oid = oid and apiKey = apiKey
        and r = r and delayMs = delayMs and vars = vars]
    by blast
  with 0 show ?case by (simp add: waitLoop.simps [of _ _ _ _ _ attempts])
next
  case (Suc n)
  from Suc.prems(3) have "pending (gw (Suc (status_calls w)) oid apiKey)" by force
  then obtain vars' w' where p: "pollAttempt gw oid apiKey delayMs vars w = (Completed, vars', w')"
    and c: "status_calls w' = Suc (status_calls w)"
    using pollAttempt_pending [where gw = gw and w = w and oid = oid and apiKey = apiKey
        and delayMs = delayMs and vars = vars]
    by blast
  have "\<exists>w''. waitLoop gw oid apiKey maxAttempts delayMs (attempts + 1) vars' w' = (Inr r, w'')
           \<and> status_calls w'' = status_calls w' + n + 1"
  proof (rule Suc.IH)
    show "gw (status_calls w' + n + 1) oid apiKey = Inr r" using Suc.prems(1) c by simp
    show "ready r" by fact
    show "\<forall>i<n. pending (gw (status_calls w' + i + 1) oid apiKey)"
    proof (intro allI impI)
      fix i assume "i < n"
      then have "Suc i < Suc n" by simp
      with Suc.prems(3) have "pending (gw (status_calls w + Suc i + 1) oid apiKey)" by blast
      then show "pending (gw (status_calls w' + i + 1) oid apiKey)" by (simp add: c)
    qed
    show "attempts + 1 + n < maxAttempts" using Suc.prems(4) by simp
  qed
  then obtain w'' where "waitLoop gw oid apiKey maxAttempts delayMs (attempts + 1) vars' w' = (Inr r, w'')"
    "status_calls w'' = status_calls w' + n + 1" by blast
  moreover have "attempts < maxAttempts" using Suc.prems(4) by simp
  ultimately show ?case using p c
    by (simp add: waitLoop.simps [of _ _ _ _ _ attempts])
qed

lemma waitLoop_timeout:
  assumes "\<forall>i<maxAttempts - attempts. pending (gw (status_calls w + i + 1) oid apiKey)"
  shows "\<exists>w'. waitLoop gw oid apiKey maxAttempts delayMs attempts vars w
             = (Inl (PreparationTimeout maxAttempts), w')
           \<and> status_calls w' = status_calls w + (maxAttempts - attempts)"
  using assms
proof (induction "maxAttempts - attempts" arbitrary: attempts vars w)
  case 0
  then have "\<not> attempts < maxAttempts" by simp
  then show ?case by (simp add: waitLoop.simps [of _ _ _ _ _ attempts])
next
  case (Suc k)
  then have lt: "attempts < maxAttempts" by simp
  from Suc.prems Suc.hyps(2) have "pending (gw (Suc (status_calls w)) oid apiKey)" by force
  then obtain vars' w' where p: "pollAttempt gw oid apiKey delayMs vars w = (Completed, vars', w')"
    and c: "status_calls w' = Suc (status_calls w)"
    using pollAttempt_pending [where gw = gw and w = w and oid = oid and apiKey = apiKey
        and delayMs = delayMs and vars = vars]
    by blast
  have k: "k = maxAttempts - (attempts + 1)" using Suc.hyps(2) by simp
  have "\<exists>w''. waitLoop gw oid apiKey maxAttempts delayMs (attempts + 1) vars' w'
             = (Inl (PreparationTimeout maxAttempts), w'')
           \<and> status_calls w'' = status_calls w' + (maxAttempts - (attempts + 1))"
  proof (rule Suc.hyps(1) [OF k])
    show "\<forall>i<maxAttempts - (attempts + 1). pending (gw (status_calls w' + i + 1) oid apiKey)"
    proof (intro allI impI)
      fix i assume "i < maxAttempts - (attempts + 1)"
      then have "Suc i < maxAttempts - attempts" by simp
      with Suc.prems have "pending (gw (status_calls w + Suc i + 1) oid apiKey)" by blast
      then show "pending (gw (status_calls w' + i + 1) oid apiKey)" by (simp add: c)
    qed
  qed
  then obtain w'' where "waitLoop gw oid apiKey maxAttempts delayMs (attempts + 1) vars' w'
             = (Inl (PreparationTimeout maxAttempts), w'')"
    "status_calls w'' = status_calls w' + (maxAttempts - (attempts + 1))" by blast
  then show ?case using p c lt
    by (simp add: waitLoop.simps [of _ _ _ _ _ attempts])
qed

lemma pending_pendingResponse: "pending (Inr pendingResponse)"
  by (simp add: pending_def ready_def terminal_def exampleQuote_def exampleOrder_def nested_def flattened_def
      pendingResponse_def readyResponse_def failedResponse_def orderOf_def truthy_def
      preparedTransaction_def paymentStatusOf_def)

lemma ready_readyResponse: "ready readyResponse"
  by (simp add: ready_def exampleQuote_def exampleOrder_def nested_def flattened_def
      pendingResponse_def readyResponse_def failedResponse_def orderOf_def truthy_def preparedTransaction_def Order.truncate_def)

text \<open>
  Claim C4. For every \<open>maxAttempts \<ge> 1\<close> and every sequence of \<^verbatim>\<open>getOrderStatus\<close>
  results: if the result of attempt \<open>k \<le> maxAttempts\<close> has a non-empty serialized
  transaction and every earlier result is a response with no serialized transaction and
  no terminal status (and not an error), \<^verbatim>\<open>waitForPaymentPreparation\<close> returns that
  status response after exactly \<open>k\<close> calls; and if every result of the first
  \<open>maxAttempts\<close> attempts is such a pending response, it throws the preparation-timeout
  error after exactly \<open>maxAttempts\<close> calls.
\<close>

theorem waitForPaymentPreparation_stops:
  assumes "1 \<le> maxAttempts"
  shows "(1 \<le> k \<and> k \<le> maxAttempts
            \<and> gw (status_calls w + k) oid apiKey = Inr r \<and> ready r
            \<and> (\<forall>i. 1 \<le> i \<and> i < k \<longrightarrow> pending (gw (status_calls w + i) oid apiKey))
          \<longrightarrow> (\<exists>w'. waitForPaymentPreparation gw oid apiKey maxAttempts delayMs w = (Inr r, w')
                    \<and> status_calls w' = status_calls w + k))
       \<and> ((\<forall>i. 1 \<le> i \<and> i \<le> maxAttempts \<longrightarrow> pending (gw (status_calls w + i) oid apiKey))
          \<longrightarrow> (\<exists>w'. waitForPaymentPreparation gw oid apiKey maxAttempts delayMs w
                      = (Inl (PreparationTimeout maxAttempts), w')
                    \<and> status_calls w' = status_calls w + maxAttempts))"
proof (intro conjI impI)
  assume a: "1 \<le> k \<and> k \<le> maxAttempts
            \<and> gw (status_calls w + k) oid apiKey = Inr r \<and> ready r
            \<and> (\<forall>i. 1 \<le> i \<and> i < k \<longrightarrow> pending (gw (status_calls w + i) oid apiKey))"
  then obtain n where n: "k = n + 1" by (cases k) auto
  from a n have "gw (status_calls w + n + 1) oid apiKey = Inr r" "ready r"
    "\<forall>i<n. pending (gw (status_calls w + i + 1) oid apiKey)" "0 + n < maxAttempts"
    by auto
  then show "\<exists>w'. waitForPaymentPreparation gw oid apiKey maxAttempts delayMs w = (Inr r, w')
                    \<and> status_calls w' = status_calls w + k"
    using waitLoop_ready [where gw = gw and w = w and n = n and oid = oid and apiKey = apiKey
        and r = r and attempts = 0 and maxAttempts = maxAttempts and delayMs = delayMs]
    by (simp add: waitForPaymentPreparation_def n)
next
  assume all: "\<forall>i. 1 \<le> i \<and> i \<le> maxAttempts \<longrightarrow> pending (gw (status_calls w + i) oid apiKey)"
  have "\<forall>i<maxAttempts - 0. pending (gw (status_calls w + i + 1) oid apiKey)"
  proof (intro allI impI)
    fix i assume "i < maxAttempts - 0"
    then have "1 \<le> Suc i \<and> Suc i \<le> maxAttempts" by simp
    with all have "pending (gw (status_calls w + Suc i) oid apiKey)" by blast
    then show "pending (gw (status_calls w + i + 1) oid apiKey)" by simp
  qed
  then show "\<exists>w'. waitForPaymentPreparation gw oid apiKey maxAttempts delayMs w
                      = (Inl (PreparationTimeout maxAttempts), w')
                    \<and> status_calls w' = status_calls w + maxAttempts"
    using waitLoop_timeout [where gw = gw and w = w and oid = oid and apiKey = apiKey
        and attempts = 0 and maxAttempts = maxAttempts and delayMs = delayMs]
    by (simp add: waitForPaymentPreparation_def)
qed

theorem waitForPaymentPreparation_stops_witness:
  "(1::nat) \<le> 5
   \<and> scripted [Inr pendingResponse, Inr pendingResponse, Inr readyResponse] 3 ''order-1'' ''sk_staging_1''
       = Inr readyResponse
   \<and> ready readyResponse
   \<and> pending (scripted [Inr pendingResponse, Inr pendingResponse, Inr readyResponse] 1 ''order-1'' ''sk_staging_1'')
   \<and> pending (scripted [Inr pendingResponse, Inr pendingResponse, Inr readyResponse] 2 ''order-1'' ''sk_staging_1'')
   \<and> fst (waitForPaymentPreparation (scripted [Inr pendingResponse, Inr pendingResponse, Inr readyResponse])
          ''order-1'' ''sk_staging_1'' 5 2000 world0) = Inr readyResponse
   \<and> status_calls (snd (waitForPaymentPreparation
          (scripted [Inr pendingResponse, Inr pendingResponse, Inr readyResponse])
          ''order-1'' ''sk_staging_1'' 5 2000 world0)) = 3
   \<and> fst (waitForPaymentPreparation (scripted [Inr pendingResponse, Inr pendingResponse])
          ''order-1'' ''sk_staging_1'' 2 2000 world0) = Inl (PreparationTimeout 2)
   \<and> status_calls (snd (waitForPaymentPreparation (scripted [Inr pendingResponse, Inr pendingResponse])
          ''order-1'' ''sk_staging_1'' 2 2000 world0)) = 2"
proof -
  let ?gw = "scripted [Inr pendingResponse, Inr pendingResponse, Inr readyResponse]"
  let ?gw2 = "scripted [Inr pendingResponse, Inr pendingResponse]"
  have s1: "?gw 1 ''order-1'' ''sk_staging_1'' = Inr pendingResponse"
    and s2: "?gw 2 ''order-1'' ''sk_staging_1'' = Inr pendingResponse"
    and s3: "?gw 3 ''order-1'' ''sk_staging_1'' = Inr readyResponse"
    and t1: "?gw2 1 ''order-1'' ''sk_staging_1'' = Inr pendingResponse"
    and t2: "?gw2 2 ''order-1'' ''sk_staging_1'' = Inr pendingResponse"
    by (simp_all add: scripted_def)
  have c0: "status_calls world0 = 0" by (simp add: world0_def)
  have p: "\<forall>i. 1 \<le> i \<and> i < 3 \<longrightarrow> pending (?gw (status_calls world0 + i) ''order-1'' ''sk_staging_1'')"
  proof (intro allI impI)
    fix i :: nat assume "1 \<le> i \<and> i < 3"
    then have "i = 1 \<or> i = 2" by auto
    then show "pending (?gw (status_calls world0 + i) ''order-1'' ''sk_staging_1'')"
      using s1 s2 pending_pendingResponse by (auto simp: c0)
  qed
  have q: "\<forall>i. 1 \<le> i \<and> i \<le> 2 \<longrightarrow> pending (?gw2 (status_calls world0 + i) ''order-1'' ''sk_staging_1'')"
  proof (intro allI impI)
    fix i :: nat assume "1 \<le> i \<and> i \<le> 2"
    then have "i = 1 \<or> i = 2" by auto
    then show "pending (?gw2 (status_calls world0 + i) ''order-1'' ''sk_staging_1'')"
      using t1 t2 pending_pendingResponse by (auto simp: c0)
  qed
  have h5: "(1::nat) \<le> 5" and h2: "(1::nat) \<le> 2" by simp_all
  from waitForPaymentPreparation_stops [OF h5, of 3 ?gw world0 "''order-1''" "''sk_staging_1''" readyResponse 2000]
    p s3 ready_readyResponse
  have a: "\<exists>w'. waitForPaymentPreparation ?gw ''order-1'' ''sk_staging_1'' 5 2000 world0 = (Inr readyResponse, w')
        \<and> status_calls w' = 3"
    by (simp add: c0 eval_nat_numeral)
  from waitForPaymentPreparation_stops [OF h2, of 0 ?gw2 world0 "''order-1''" "''sk_staging_1''" readyResponse 2000] q
  have b: "\<exists>w'. waitForPaymentPreparation ?gw2 ''order-1'' ''sk_staging_1'' 2 2000 world0
        = (Inl (PreparationTimeout 2), w') \<and> status_calls w' = 2"
    by (simp add: c0 eval_nat_numeral)
  from a b s1 s2 s3 pending_pendingResponse ready_readyResponse show ?thesis by auto
qed

lemma pollAttempt_error:
  "gw (Suc (status_calls w)) oid apiKey = Inl e
   \<Longrightarrow> pollAttempt gw oid apiKey delayMs vars w
       = (Thrown e, vars, w\<lparr>status_calls := Suc (status_calls w)\<rparr>)"
  by (simp add: pollAttempt_def callGetOrderStatus_def)

lemma pollAttempt_ready_sleeps:
  assumes "gw (Suc (status_calls w)) oid apiKey = Inr r" "ready r"
  shows "\<exists>vars' w'. pollAttempt gw oid apiKey delayMs vars w = (Returned r, vars', w')
           \<and> status_calls w' = Suc (status_calls w) \<and> sleeps w' = sleeps w"
  using assms
  by (simp add: pollAttempt_def callGetOrderStatus_def ready_def Let_def consoleLog_def
      split: prod.splits)

lemma pollAttempt_pending_sleeps:
  assumes "pending (gw (Suc (status_calls w)) oid apiKey)"
  shows "\<exists>vars' w'. pollAttempt gw oid apiKey delayMs vars w = (Completed, vars', w')
           \<and> status_calls w' = Suc (status_calls w) \<and> sleeps w' = sleeps w @ [delayMs]"
  using assms
  by (auto simp add: pollAttempt_def callGetOrderStatus_def ready_def terminal_def pending_def
      Let_def consoleLog_def sleep_def split: prod.splits sum.splits option.splits)

lemma waitLoop_pending_step:
  assumes "attempts < maxAttempts" "pending (gw (Suc (status_calls w)) oid apiKey)"
  shows "\<exists>vars' w'. waitLoop gw oid apiKey maxAttempts delayMs attempts vars w
             = waitLoop gw oid apiKey maxAttempts delayMs (attempts + 1) vars' w'
           \<and> status_calls w' = Suc (status_calls w) \<and> sleeps w' = sleeps w @ [delayMs]"
proof -
  from assms(2) obtain vars' w' where
    p: "pollAttempt gw oid apiKey delayMs vars w = (Completed, vars', w')"
    and c: "status_calls w' = Suc (status_calls w)" "sleeps w' = sleeps w @ [delayMs]"
    using pollAttempt_pending_sleeps [where gw = gw and w = w and oid = oid and apiKey = apiKey
        and delayMs = delayMs and vars = vars]
    by blast
  from assms(1) p have "waitLoop gw oid apiKey maxAttempts delayMs attempts vars w
             = waitLoop gw oid apiKey maxAttempts delayMs (attempts + 1) vars' w'"
    by (simp add: waitLoop.simps [of _ _ _ _ _ attempts])
  with c show ?thesis by blast
qed

lemma waitLoop_error_step:
  assumes "attempts + 1 < maxAttempts" "gw (Suc (status_calls w)) oid apiKey = Inl e"
  shows "\<exists>vars' w'. waitLoop gw oid apiKey maxAttempts delayMs attempts vars w
             = waitLoop gw oid apiKey maxAttempts delayMs (attempts + 1) vars' w'
           \<and> status_calls w' = Suc (status_calls w) \<and> sleeps w' = sleeps w @ [delayMs]"
proof -
  let ?w' = "sleep delayMs (consoleLog (ErrorPollingOrderStatus e)
               (w\<lparr>status_calls := Suc (status_calls w)\<rparr>))"
  from assms have "waitLoop gw oid apiKey maxAttempts delayMs attempts vars w
             = waitLoop gw oid apiKey maxAttempts delayMs (attempts + 1) vars ?w'"
    by (simp add: waitLoop.simps [of _ _ _ _ _ attempts] pollAttempt_error)
  moreover have "status_calls ?w' = Suc (status_calls w)" "sleeps ?w' = sleeps w @ [delayMs]"
    by (simp_all add: sleep_def consoleLog_def)
  ultimately show ?thesis by blast
qed

lemma waitLoop_retried_step:
  assumes "attempts + 1 < maxAttempts" "retried (gw (Suc (status_calls w)) oid apiKey)"
  shows "\<exists>vars' w'. waitLoop gw oid apiKey maxAttempts delayMs attempts vars w
             = waitLoop gw oid apiKey maxAttempts delayMs (attempts + 1) vars' w'
           \<and> status_calls w' = Suc (status_calls w) \<and> sleeps w' = sleeps w @ [delayMs]"
proof (cases "gw (Suc (status_calls w)) oid apiKey")
  case (Inl e)
  from waitLoop_error_step [where gw = gw, OF assms(1) Inl] show ?thesis .
next
  case (Inr r)
  with assms(2) have "pending (gw (Suc (status_calls w)) oid apiKey)"
    by (simp add: retried_def pending_def)
  moreover from assms(1) have "attempts < maxAttempts" by simp
  ultimately show ?thesis by (rule waitLoop_pending_step [rotated])
qed

lemma waitLoop_retried:
  assumes "\<forall>i<n. retried (gw (status_calls w + i + 1) oid apiKey)"
    and "attempts + n < maxAttempts"
  shows "\<exists>vars' w'. waitLoop gw oid apiKey maxAttempts delayMs attempts vars w
             = waitLoop gw oid apiKey maxAttempts delayMs (attempts + n) vars' w'
           \<and> status_calls w' = status_calls w + n
           \<and> sleeps w' = sleeps w @ replicate n delayMs"
  using assms
proof (induction n arbitrary: attempts vars w)
  case 0
  show ?case by auto
next
  case (Suc n)
  from Suc.prems(1) have "retried (gw (Suc (status_calls w)) oid apiKey)" by force
  moreover from Suc.prems(2) have "attempts + 1 < maxAttempts" by simp
  ultimately obtain vars1 w1 where
    s: "waitLoop gw oid apiKey maxAttempts delayMs attempts vars w
          = waitLoop gw oid apiKey maxAttempts delayMs (attempts + 1) vars1 w1"
    and c: "status_calls w1 = Suc (status_calls w)" and z: "sleeps w1 = sleeps w @ [delayMs]"
    using waitLoop_retried_step [where gw = gw and w = w and oid = oid and apiKey = apiKey
        and attempts = attempts and maxAttempts = maxAttempts and delayMs = delayMs and vars = vars]
    by blast
  have "\<exists>vars' w'. waitLoop gw oid apiKey maxAttempts delayMs (attempts + 1) vars1 w1
             = waitLoop gw oid apiKey maxAttempts delayMs (attempts + 1 + n) vars' w'
           \<and> status_calls w' = status_calls w1 + n
           \<and> sleeps w' = sleeps w1 @ replicate n delayMs"
  proof (rule Suc.IH)
    show "\<forall>i<n. retried (gw (status_calls w1 + i + 1) oid apiKey)"
    proof (intro allI impI)
      fix i assume "i < n"
      then have "Suc i < Suc n" by simp
      with Suc.prems(1) have "retried (gw (status_calls w + Suc i + 1) oid apiKey)" by blast
      then show "retried (gw (status_calls w1 + i + 1) oid apiKey)" by (simp add: c)
    qed
    show "attempts + 1 + n < maxAttempts" using Suc.prems(2) by simp
  qed
  then obtain vars' w' where
    "waitLoop gw oid apiKey maxAttempts delayMs (attempts + 1) vars1 w1
       = waitLoop gw oid apiKey maxAttempts delayMs (attempts + 1 + n) vars' w'"
    "status_calls w' = status_calls w1 + n" "sleeps w' = sleeps w1 @ replicate n delayMs"
    by blast
  with s c z have "waitLoop gw oid apiKey maxAttempts delayMs attempts vars w
             = waitLoop gw oid apiKey maxAttempts delayMs (attempts + Suc n) vars' w'
           \<and> status_calls w' = status_calls w + Suc n
           \<and> sleeps w' = sleeps w @ replicate (Suc n) delayMs"
    by simp
  then show ?case by blast
qed

lemma waitLoop_ready_end:
  assumes "attempts < maxAttempts" "gw (Suc (status_calls w)) oid apiKey = Inr r" "ready r"
  shows "\<exists>w'. waitLoop gw oid apiKey maxAttempts delayMs attempts vars w = (Inr r, w')
           \<and> status_calls w' = Suc (status_calls w) \<and> sleeps w' = sleeps w"
proof -
  from assms(2,3) obtain vars' w' where
    "pollAttempt gw oid apiKey delayMs vars w = (Returned r, vars', w')"
    "status_calls w' = Suc (status_calls w)" "sleeps w' = sleeps w"
    using pollAttempt_ready_sleeps [where gw = gw and w = w and oid = oid and apiKey = apiKey
        and r = r and delayMs = delayMs and vars = vars]
    by blast
  with assms(1) show ?thesis by (simp add: waitLoop.simps [of _ _ _ _ _ attempts])
qed

lemma waitLoop_error_end:
  assumes "attempts + 1 = maxAttempts" "gw (Suc (status_calls w)) oid apiKey = Inl e"
  shows "waitLoop gw oid apiKey maxAttempts delayMs attempts vars w
           = (Inl e, w\<lparr>status_calls := Suc (status_calls w)\<rparr>)"
  using assms by (simp add: waitLoop.simps [of _ _ _ _ _ attempts] pollAttempt_error)

lemma waitLoop_pending_timeout:
  assumes "\<forall>i<maxAttempts - attempts. pending (gw (status_calls w + i + 1) oid apiKey)"
  shows "\<exists>w'. waitLoop gw oid apiKey maxAttempts delayMs attempts vars w
             = (Inl (PreparationTimeout maxAttempts), w')
           \<and> status_calls w' = status_calls w + (maxAttempts - attempts)
           \<and> sleeps w' = sleeps w @ replicate (maxAttempts - attempts) delayMs"
  using assms
proof (induction "maxAttempts - attempts" arbitrary: attempts vars w)
  case 0
  then have "\<not> attempts < maxAttempts" by simp
  with 0 show ?case by (simp add: waitLoop.simps [of _ _ _ _ _ attempts])
next
  case (Suc k)
  then have lt: "attempts < maxAttempts" by simp
  from Suc.prems Suc.hyps(2) have "pending (gw (Suc (status_calls w)) oid apiKey)" by force
  with lt obtain vars1 w1 where
    s: "waitLoop gw oid apiKey maxAttempts delayMs attempts vars w
          = waitLoop gw oid apiKey maxAttempts delayMs (attempts + 1) vars1 w1"
    and c: "status_calls w1 = Suc (status_calls w)" and z: "sleeps w1 = sleeps w @ [delayMs]"
    using waitLoop_pending_step [where gw = gw and w = w and oid = oid and apiKey = apiKey
        and attempts = attempts and maxAttempts = maxAttempts and delayMs = delayMs and vars = vars]
    by blast
  have k: "k = maxAttempts - (attempts + 1)" using Suc.hyps(2) by simp
  have "\<exists>w'. waitLoop gw oid apiKey maxAttempts delayMs (attempts + 1) vars1 w1
             = (Inl (PreparationTimeout maxAttempts), w')
           \<and> status_calls w' = status_calls w1 + (maxAttempts - (attempts + 1))
           \<and> sleeps w' = sleeps w1 @ replicate (maxAttempts - (attempts + 1)) delayMs"
  proof (rule Suc.hyps(1) [OF k])
    show "\<forall>i<maxAttempts - (attempts + 1). pending (gw (status_calls w1 + i + 1) oid apiKey)"
    proof (intro allI impI)
      fix i assume "i < maxAttempts - (attempts + 1)"
      then have "Suc i < maxAttempts - attempts" by simp
      with Suc.prems have "pending (gw (status_calls w + Suc i + 1) oid apiKey)" by blast
      then show "pending (gw (status_calls w1 + i + 1) oid apiKey)" by (simp add: c)
    qed
  qed
  then obtain w' where "waitLoop gw oid apiKey maxAttempts delayMs (attempts + 1) vars1 w1
             = (Inl (PreparationTimeout maxAttempts), w')"
    "status_calls w' = status_calls w1 + (maxAttempts - (attempts + 1))"
    "sleeps w' = sleeps w1 @ replicate (maxAttempts - (attempts + 1)) delayMs" by blast
  moreover have "replicate (maxAttempts - attempts) delayMs
      = delayMs # replicate (maxAttempts - (attempts + 1)) delayMs"
    using lt by (cases "maxAttempts - attempts") auto
  ultimately show ?case using s c z lt by simp
qed

text \<open>
  Claim C5. A \<^verbatim>\<open>getOrderStatus\<close> call that throws uses up its attempt like any other.
  Let the call of attempt \<open>j \<le> maxAttempts\<close> throw \<open>e\<close>, after earlier attempts that each
  threw or brought a pending response. When \<open>j\<close> is the final attempt,
  \<^verbatim>\<open>waitForPaymentPreparation\<close> throws \<open>e\<close> itself, after exactly \<open>maxAttempts\<close> calls and
  \<open>maxAttempts - 1\<close> sleeps of \<open>delayMs\<close>. When \<open>j\<close> is an earlier attempt the loop sleeps
  \<open>delayMs\<close> once more, as after every other attempt, and polls again: a serialized
  transaction at attempt \<open>j + 1\<close> is returned after exactly \<open>j + 1\<close> calls and \<open>j\<close> sleeps
  of \<open>delayMs\<close>; and when all later attempts are pending the preparation-timeout error
  comes after exactly \<open>maxAttempts\<close> calls, the failed one included, and \<open>maxAttempts\<close>
  sleeps of \<open>delayMs\<close>.
\<close>

theorem waitForPaymentPreparation_error_counts:
  assumes "1 \<le> j" and "j \<le> maxAttempts"
    and "gw (status_calls w + j) oid apiKey = Inl e"
    and "\<forall>i. 1 \<le> i \<and> i < j \<longrightarrow> retried (gw (status_calls w + i) oid apiKey)"
  shows "(j = maxAttempts \<longrightarrow>
            (\<exists>w'. waitForPaymentPreparation gw oid apiKey maxAttempts delayMs w = (Inl e, w')
                  \<and> status_calls w' = status_calls w + maxAttempts
                  \<and> sleeps w' = sleeps w @ replicate (maxAttempts - 1) delayMs))
       \<and> (j < maxAttempts \<and> gw (status_calls w + j + 1) oid apiKey = Inr r \<and> ready r \<longrightarrow>
            (\<exists>w'. waitForPaymentPreparation gw oid apiKey maxAttempts delayMs w = (Inr r, w')
                  \<and> status_calls w' = status_calls w + j + 1
                  \<and> sleeps w' = sleeps w @ replicate j delayMs))
       \<and> (j < maxAttempts
            \<and> (\<forall>i. j < i \<and> i \<le> maxAttempts \<longrightarrow> pending (gw (status_calls w + i) oid apiKey)) \<longrightarrow>
            (\<exists>w'. waitForPaymentPreparation gw oid apiKey maxAttempts delayMs w
                    = (Inl (PreparationTimeout maxAttempts), w')
                  \<and> status_calls w' = status_calls w + maxAttempts
                  \<and> sleeps w' = sleeps w @ replicate maxAttempts delayMs))"
proof (intro conjI impI)
  let ?vars = "\<lparr>lastPhase = [], lastPaymentStatus = []\<rparr>"
  have before: "\<forall>i<j - 1. retried (gw (status_calls w + i + 1) oid apiKey)"
  proof (intro allI impI)
    fix i assume "i < j - 1"
    then have "1 \<le> Suc i \<and> Suc i < j" by simp
    with assms(4) have "retried (gw (status_calls w + Suc i) oid apiKey)" by blast
    then show "retried (gw (status_calls w + i + 1) oid apiKey)" by simp
  qed
  have upto: "\<forall>i<j. retried (gw (status_calls w + i + 1) oid apiKey)"
  proof (intro allI impI)
    fix i assume "i < j"
    show "retried (gw (status_calls w + i + 1) oid apiKey)"
    proof (cases "Suc i = j")
      case True
      then have "status_calls w + i + 1 = status_calls w + j" by simp
      with assms(3) show ?thesis by (simp only: retried_def sum.case)
    next
      case False
      with \<open>i < j\<close> have "1 \<le> Suc i \<and> Suc i < j" by simp
      with assms(4) have "retried (gw (status_calls w + Suc i) oid apiKey)" by blast
      then show ?thesis by simp
    qed
  qed
  {
    assume last: "j = maxAttempts"
    with assms(1) have "0 + (j - 1) < maxAttempts" by simp
    with before obtain vars1 w1 where
      s: "waitLoop gw oid apiKey maxAttempts delayMs 0 ?vars w
            = waitLoop gw oid apiKey maxAttempts delayMs (0 + (j - 1)) vars1 w1"
      and c: "status_calls w1 = status_calls w + (j - 1)"
      and z: "sleeps w1 = sleeps w @ replicate (j - 1) delayMs"
      using waitLoop_retried [where gw = gw and w = w and n = "j - 1" and oid = oid
          and apiKey = apiKey and attempts = 0 and maxAttempts = maxAttempts
          and delayMs = delayMs and vars = ?vars]
      by blast
    from assms(1,3) c have e: "gw (Suc (status_calls w1)) oid apiKey = Inl e" by simp
    from last assms(1) have "0 + (j - 1) + 1 = maxAttempts" by simp
    from waitLoop_error_end [where gw = gw, OF this e]
    have "waitLoop gw oid apiKey maxAttempts delayMs (0 + (j - 1)) vars1 w1
        = (Inl e, w1\<lparr>status_calls := Suc (status_calls w1)\<rparr>)" .
    with s c z last assms(1)
    show "\<exists>w'. waitForPaymentPreparation gw oid apiKey maxAttempts delayMs w = (Inl e, w')
                  \<and> status_calls w' = status_calls w + maxAttempts
                  \<and> sleeps w' = sleeps w @ replicate (maxAttempts - 1) delayMs"
      by (simp add: waitForPaymentPreparation_def)
  }
  {
    assume a: "j < maxAttempts \<and> gw (status_calls w + j + 1) oid apiKey = Inr r \<and> ready r"
    then have "0 + j < maxAttempts" by simp
    with upto obtain vars1 w1 where
      s: "waitLoop gw oid apiKey maxAttempts delayMs 0 ?vars w
            = waitLoop gw oid apiKey maxAttempts delayMs (0 + j) vars1 w1"
      and c: "status_calls w1 = status_calls w + j"
      and z: "sleeps w1 = sleeps w @ replicate j delayMs"
      using waitLoop_retried [where gw = gw and w = w and n = j and oid = oid
          and apiKey = apiKey and attempts = 0 and maxAttempts = maxAttempts
          and delayMs = delayMs and vars = ?vars]
      by blast
    from a c have "gw (Suc (status_calls w1)) oid apiKey = Inr r" "ready r" "0 + j < maxAttempts"
      by simp_all
    then obtain w' where "waitLoop gw oid apiKey maxAttempts delayMs (0 + j) vars1 w1 = (Inr r, w')"
      "status_calls w' = Suc (status_calls w1)" "sleeps w' = sleeps w1"
      using waitLoop_ready_end [where gw = gw and w = w1 and oid = oid and apiKey = apiKey
          and r = r and attempts = "0 + j" and maxAttempts = maxAttempts and delayMs = delayMs
          and vars = vars1]
      by blast
    with s c z
    show "\<exists>w'. waitForPaymentPreparation gw oid apiKey maxAttempts delayMs w = (Inr r, w')
                  \<and> status_calls w' = status_calls w + j + 1
                  \<and> sleeps w' = sleeps w @ replicate j delayMs"
      by (simp add: waitForPaymentPreparation_def)
  }
  {
    assume a: "j < maxAttempts
            \<and> (\<forall>i. j < i \<and> i \<le> maxAttempts \<longrightarrow> pending (gw (status_calls w + i) oid apiKey))"
    then have "0 + j < maxAttempts" by simp
    with upto obtain vars1 w1 where
      s: "waitLoop gw oid apiKey maxAttempts delayMs 0 ?vars w
            = waitLoop gw oid apiKey maxAttempts delayMs (0 + j) vars1 w1"
      and c: "status_calls w1 = status_calls w + j"
      and z: "sleeps w1 = sleeps w @ replicate j delayMs"
      using waitLoop_retried [where gw = gw and w = w and n = j and oid = oid
          and apiKey = apiKey and attempts = 0 and maxAttempts = maxAttempts
          and delayMs = delayMs and vars = ?vars]
      by blast
    have "\<forall>i<maxAttempts - (0 + j). pending (gw (status_calls w1 + i + 1) oid apiKey)"
    proof (intro allI impI)
      fix i assume "i < maxAttempts - (0 + j)"
      then have "j < j + Suc i \<and> j + Suc i \<le> maxAttempts" by simp
      with a have "pending (gw (status_calls w + (j + Suc i)) oid apiKey)" by blast
      then show "pending (gw (status_calls w1 + i + 1) oid apiKey)" by (simp add: c add.assoc)
    qed
    then obtain w' where "waitLoop gw oid apiKey maxAttempts delayMs (0 + j) vars1 w1
             = (Inl (PreparationTimeout maxAttempts), w')"
      "status_calls w' = status_calls w1 + (maxAttempts - (0 + j))"
      "sleeps w' = sleeps w1 @ replicate (maxAttempts - (0 + j)) delayMs"
      using waitLoop_pending_timeout [where gw = gw and w = w1 and oid = oid and apiKey = apiKey
          and attempts = "0 + j" and maxAttempts = maxAttempts and delayMs = delayMs
          and vars = vars1]
      by blast
    moreover from a have "replicate j delayMs @ replicate (maxAttempts - j) delayMs
        = replicate maxAttempts delayMs"
      by (simp add: replicate_add [symmetric])
    ultimately
    show "\<exists>w'. waitForPaymentPreparation gw oid apiKey maxAttempts delayMs w
                    = (Inl (PreparationTimeout maxAttempts), w')
                  \<and> status_calls w' = status_calls w + maxAttempts
                  \<and> sleeps w' = sleeps w @ replicate maxAttempts delayMs"
      using s c z a by (simp add: waitForPaymentPreparation_def)
  }
qed

theorem waitForPaymentPreparation_error_counts_witness:
  "retried (scripted [Inr pendingResponse, Inl (RemoteUnreachable ''ECONNRESET'')]
      1 ''order-1'' ''sk_staging_1'')
   \<and> fst (waitForPaymentPreparation
        (scripted [Inr pendingResponse, Inl (RemoteUnreachable ''ECONNRESET'')])
        ''order-1'' ''sk_staging_1'' 2 500 world0) = Inl (RemoteUnreachable ''ECONNRESET'')
   \<and> status_calls (snd (waitForPaymentPreparation
        (scripted [Inr pendingResponse, Inl (RemoteUnreachable ''ECONNRESET'')])
        ''order-1'' ''sk_staging_1'' 2 500 world0)) = 2
   \<and> sleeps (snd (waitForPaymentPreparation
        (scripted [Inr pendingResponse, Inl (RemoteUnreachable ''ECONNRESET'')])
        ''order-1'' ''sk_staging_1'' 2 500 world0)) = [500]
   \<and> ready readyResponse
   \<and> waitForPaymentPreparation
        (scripted [Inl (RemoteUnreachable ''ECONNRESET''), Inr readyResponse])
        ''order-1'' ''sk_staging_1'' 3 500 world0
       = (Inr readyResponse,
          \<lparr>status_calls = 2, sleeps = [500],
           console = [ErrorPollingOrderStatus (RemoteUnreachable ''ECONNRESET''),
                      OrderPhase ''payment'', PaymentStatus ''awaiting-payment''],
           submissions = []\<rparr>)
   \<and> pending (scripted [Inl (RemoteUnreachable ''ECONNRESET''), Inr pendingResponse,
        Inr pendingResponse] 2 ''order-1'' ''sk_staging_1'')
   \<and> pending (scripted [Inl (RemoteUnreachable ''ECONNRESET''), Inr pendingResponse,
        Inr pendingResponse] 3 ''order-1'' ''sk_staging_1'')
   \<and> fst (waitForPaymentPreparation
        (scripted [Inl (RemoteUnreachable ''ECONNRESET''), Inr pendingResponse, Inr pendingResponse])
        ''order-1'' ''sk_staging_1'' 3 500 world0) = Inl (PreparationTimeout 3)
   \<and> status_calls (snd (waitForPaymentPreparation
        (scripted [Inl (RemoteUnreachable ''ECONNRESET''), Inr pendingResponse, Inr pendingResponse])
        ''order-1'' ''sk_staging_1'' 3 500 world0)) = 3
   \<and> sleeps (snd (waitForPaymentPreparation
        (scripted [Inl (RemoteUnreachable ''ECONNRESET''), Inr pendingResponse, Inr pendingResponse])
        ''order-1'' ''sk_staging_1'' 3 500 world0)) = [500, 500, 500]"
proof -
  let ?e = "RemoteUnreachable ''ECONNRESET''"
  let ?g1 = "scripted [Inr pendingResponse, Inl ?e]"
  let ?g2 = "scripted [Inl ?e, Inr readyResponse]"
  let ?g3 = "scripted [Inl ?e, Inr pendingResponse, Inr pendingResponse]"
  have c0: "status_calls world0 = 0" and z0: "sleeps world0 = []"
    by (simp_all add: world0_def)
  have g1: "?g1 1 ''order-1'' ''sk_staging_1'' = Inr pendingResponse"
    "?g1 (status_calls world0 + 2) ''order-1'' ''sk_staging_1'' = Inl ?e"
    and g2: "?g2 (status_calls world0 + 1) ''order-1'' ''sk_staging_1'' = Inl ?e"
    "?g2 (status_calls world0 + 1 + 1) ''order-1'' ''sk_staging_1'' = Inr readyResponse"
    and g3: "?g3 (status_calls world0 + 1) ''order-1'' ''sk_staging_1'' = Inl ?e"
    "?g3 2 ''order-1'' ''sk_staging_1'' = Inr pendingResponse"
    "?g3 3 ''order-1'' ''sk_staging_1'' = Inr pendingResponse"
    by (simp_all add: scripted_def c0)
  have "retried (Inr pendingResponse)"
    using pending_pendingResponse by (simp add: retried_def pending_def)
  then have r1: "retried (?g1 1 ''order-1'' ''sk_staging_1'')"
    by (simp only: g1)
  have p3: "pending (?g3 2 ''order-1'' ''sk_staging_1'')" "pending (?g3 3 ''order-1'' ''sk_staging_1'')"
    using pending_pendingResponse by (simp_all only: g3)
  have h1: "\<forall>i. 1 \<le> i \<and> i < 2 \<longrightarrow> retried (?g1 (status_calls world0 + i) ''order-1'' ''sk_staging_1'')"
  proof (intro allI impI)
    fix i :: nat assume "1 \<le> i \<and> i < 2"
    then have "i = 1" by simp
    with r1 show "retried (?g1 (status_calls world0 + i) ''order-1'' ''sk_staging_1'')"
      by (simp add: c0)
  qed
  have h2: "\<forall>i. 1 \<le> i \<and> i < 1 \<longrightarrow> retried (?g2 (status_calls world0 + i) ''order-1'' ''sk_staging_1'')"
    and h3: "\<forall>i. 1 \<le> i \<and> i < 1 \<longrightarrow> retried (?g3 (status_calls world0 + i) ''order-1'' ''sk_staging_1'')"
    by simp_all
  have h4: "\<forall>i. 1 < i \<and> i \<le> 3 \<longrightarrow> pending (?g3 (status_calls world0 + i) ''order-1'' ''sk_staging_1'')"
  proof (intro allI impI)
    fix i :: nat assume "1 < i \<and> i \<le> 3"
    then have "i = 2 \<or> i = 3" by auto
    with p3 show "pending (?g3 (status_calls world0 + i) ''order-1'' ''sk_staging_1'')"
      by (auto simp: c0)
  qed
  have n: "(1::nat) \<le> 2" "(2::nat) \<le> 2" "(1::nat) \<le> 1" "(1::nat) \<le> 3" "(1::nat) < 3"
    by simp_all
  note t1 = waitForPaymentPreparation_error_counts [where gw = ?g1 and w = world0 and j = 2
      and maxAttempts = 2 and oid = "''order-1''" and apiKey = "''sk_staging_1''" and e = ?e
      and delayMs = 500, OF n(1) n(2) g1(2) h1]
  note t2 = waitForPaymentPreparation_error_counts [where gw = ?g2 and w = world0 and j = 1
      and maxAttempts = 3 and oid = "''order-1''" and apiKey = "''sk_staging_1''" and e = ?e
      and delayMs = 500 and r = readyResponse, OF n(3) n(4) g2(1) h2]
  note t3 = waitForPaymentPreparation_error_counts [where gw = ?g3 and w = world0 and j = 1
      and maxAttempts = 3 and oid = "''order-1''" and apiKey = "''sk_staging_1''" and e = ?e
      and delayMs = 500, OF n(3) n(4) g3(1) h3]
  from t1 have a: "\<exists>w'. waitForPaymentPreparation ?g1 ''order-1'' ''sk_staging_1'' 2 500 world0
        = (Inl ?e, w') \<and> status_calls w' = 2 \<and> sleeps w' = [500]"
    by (simp add: c0 z0 eval_nat_numeral)
  from t2 n(5) g2(2) ready_readyResponse
  have b: "\<exists>w'. waitForPaymentPreparation ?g2 ''order-1'' ''sk_staging_1'' 3 500 world0
        = (Inr readyResponse, w') \<and> status_calls w' = 2 \<and> sleeps w' = [500]"
    by (simp add: c0 z0 eval_nat_numeral)
  from t3 n(5) h4
  have c: "\<exists>w'. waitForPaymentPreparation ?g3 ''order-1'' ''sk_staging_1'' 3 500 world0
        = (Inl (PreparationTimeout 3), w') \<and> status_calls w' = 3 \<and> sleeps w' = [500, 500, 500]"
    by (simp add: c0 z0 eval_nat_numeral)
  have full: "waitForPaymentPreparation ?g2 ''order-1'' ''sk_staging_1'' 3 500 world0
       = (Inr readyResponse,
          \<lparr>status_calls = 2, sleeps = [500],
           console = [ErrorPollingOrderStatus ?e, OrderPhase ''payment'',
                      PaymentStatus ''awaiting-payment''],
           submissions = []\<rparr>)"
    by code_simp
  from a b c full r1 p3 ready_readyResponse show ?thesis by auto
qed

text \<open>
  Claim C2 does not hold of the code. The error thrown on a terminal payment status is
  thrown inside the \<^verbatim>\<open>try\<close> block, so the \<^verbatim>\<open>catch\<close> block of the same iteration
  receives it and, before the final attempt, logs it, sleeps and polls again. With
  \<open>maxAttempts = 3\<close> and the status \<^verbatim>\<open>failed\<close> observed at attempt 1: when attempt 2
  brings a serialized transaction the poller returns it as a success after two calls;
  when attempts 2 and 3 are pending the poller makes all three calls and throws the
  preparation-timeout error.
\<close>

theorem waitForPaymentPreparation_terminal_not_final:
  "terminal failedResponse \<and> \<not> ready failedResponse
   \<and> waitForPaymentPreparation (scripted [Inr failedResponse, Inr readyResponse])
         ''order-1'' ''sk_staging_1'' 3 2000 world0
       = (Inr readyResponse,
          \<lparr>status_calls = 2, sleeps = [2000],
           console = [OrderPhase ''payment'', PaymentStatus ''failed'',
                      ErrorPollingOrderStatus (PaymentTerminallyFailed ''failed''),
                      PaymentStatus ''awaiting-payment''],
           submissions = []\<rparr>)
   \<and> waitForPaymentPreparation
         (scripted [Inr failedResponse, Inr pendingResponse, Inr pendingResponse])
         ''order-1'' ''sk_staging_1'' 3 2000 world0
       = (Inl (PreparationTimeout 3),
          \<lparr>status_calls = 3, sleeps = [2000, 2000, 2000],
           console = [OrderPhase ''payment'', PaymentStatus ''failed'',
                      ErrorPollingOrderStatus (PaymentTerminallyFailed ''failed''),
                      PaymentStatus ''awaiting-payment''],
           submissions = []\<rparr>)"
  by code_simp

section \<open>Properties of the payment signer\<close>

text \<open>
  Claim C3. \<^verbatim>\<open>processPayment\<close> checks its preconditions before any call to the chain
  client, in this order: (a) when \<^verbatim>\<open>order.payment.status\<close> is
  \<^verbatim>\<open>crypto-payer-insufficient-funds\<close> it fails with the insufficient-funds error and
  leaves the world as it was, whatever serialized transaction the order carries;
  (b) otherwise, when \<^verbatim>\<open>order.quote.status\<close> is \<^verbatim>\<open>requires-physical-address\<close> it fails
  with the address-required error, the world again unchanged; (c) otherwise, when no
  serialized transaction is present (undefined or empty) it fails with the
  payload-missing error that carries the whole order, having made no submission and no
  status call.
\<close>

theorem processPayment_preconditions:
  assumes "payment ord = Some pay"
  shows "(payment_status pay = ''crypto-payer-insufficient-funds'' \<longrightarrow>
            processPayment eth ord privateKey w = (Inl InsufficientFunds, w))
       \<and> (payment_status pay \<noteq> ''crypto-payer-insufficient-funds''
            \<and> quote ord = Some q \<and> quote_status q = ''requires-physical-address'' \<longrightarrow>
            processPayment eth ord privateKey w = (Inl AddressRequired, w))
       \<and> (payment_status pay \<noteq> ''crypto-payer-insufficient-funds''
            \<and> quote ord = Some q \<and> quote_status q \<noteq> ''requires-physical-address''
            \<and> \<not> truthy (preparedTransaction ord) \<longrightarrow>
            fst (processPayment eth ord privateKey w) = Inl (PaymentPayloadMissing ord)
            \<and> submissions (snd (processPayment eth ord privateKey w)) = submissions w
            \<and> status_calls (snd (processPayment eth ord privateKey w)) = status_calls w)"
  using assms
  by (auto simp: processPayment_def Let_def truthy_def preparedTransaction_def consoleLog_def
      split: option.splits)

theorem processPayment_preconditions_witness:
  "payment (exampleOrder ''crypto-payer-insufficient-funds'' ''polygon'' (Some ''0x02f8''))
     = Some \<lparr>payment_status = ''crypto-payer-insufficient-funds'', payment_method = ''polygon'',
             payment_currency = ''usdc'',
             preparation = Some \<lparr>serializedTransaction = Some ''0x02f8'', otherKeys = []\<rparr>\<rparr>
   \<and> truthy (preparedTransaction
         (exampleOrder ''crypto-payer-insufficient-funds'' ''polygon'' (Some ''0x02f8'')))
   \<and> processPayment exampleEthers
         (exampleOrder ''crypto-payer-insufficient-funds'' ''polygon'' (Some ''0x02f8''))
         ''0xkey'' world0
       = (Inl InsufficientFunds, world0)
   \<and> submissions world0 = []
   \<and> processPayment exampleEthers
         ((exampleOrder ''awaiting-payment'' ''polygon'' (Some ''0x02f8''))
            \<lparr>quote := Some (exampleQuote ''requires-physical-address'')\<rparr>)
         ''0xkey'' world0
       = (Inl AddressRequired, world0)
   \<and> fst (processPayment exampleEthers (exampleOrder ''awaiting-payment'' ''polygon'' None)
         ''0xkey'' world0)
       = Inl (PaymentPayloadMissing (exampleOrder ''awaiting-payment'' ''polygon'' None))
   \<and> submissions (snd (processPayment exampleEthers
         (exampleOrder ''awaiting-payment'' ''polygon'' None) ''0xkey'' world0)) = []"
proof -
  let ?short = "exampleOrder ''crypto-payer-insufficient-funds'' ''polygon'' (Some ''0x02f8'')"
  let ?noaddr = "(exampleOrder ''awaiting-payment'' ''polygon'' (Some ''0x02f8''))
            \<lparr>quote := Some (exampleQuote ''requires-physical-address'')\<rparr>"
  let ?bare = "exampleOrder ''awaiting-payment'' ''polygon'' None"
  have h1: "payment ?short
     = Some \<lparr>payment_status = ''crypto-payer-insufficient-funds'', payment_method = ''polygon'',
             payment_currency = ''usdc'',
             preparation = Some \<lparr>serializedTransaction = Some ''0x02f8'', otherKeys = []\<rparr>\<rparr>"
    by (simp add: exampleOrder_def)
  have h2: "payment ?noaddr
     = Some \<lparr>payment_status = ''awaiting-payment'', payment_method = ''polygon'',
             payment_currency = ''usdc'',
             preparation = Some \<lparr>serializedTransaction = Some ''0x02f8'', otherKeys = []\<rparr>\<rparr>"
    by (simp add: exampleOrder_def)
  have h3: "payment ?bare
     = Some \<lparr>payment_status = ''awaiting-payment'', payment_method = ''polygon'',
             payment_currency = ''usdc'', preparation = None\<rparr>"
    by (simp add: exampleOrder_def)
  have t: "truthy (preparedTransaction ?short)"
    by (simp add: exampleOrder_def truthy_def preparedTransaction_def)
  have s: "submissions world0 = []" by (simp add: world0_def)
  have q2: "quote ?noaddr = Some (exampleQuote ''requires-physical-address'')"
    "quote_status (exampleQuote ''requires-physical-address'') = ''requires-physical-address''"
    by (simp_all add: exampleQuote_def)
  have q3: "quote ?bare = Some (exampleQuote ''valid'')"
    "quote_status (exampleQuote ''valid'') \<noteq> ''requires-physical-address''"
    "\<not> truthy (preparedTransaction ?bare)"
    by (simp_all add: exampleOrder_def exampleQuote_def truthy_def preparedTransaction_def)
  from processPayment_preconditions [OF h1, where eth = exampleEthers
      and privateKey = "''0xkey''" and w = world0]
  have a: "processPayment exampleEthers ?short ''0xkey'' world0 = (Inl InsufficientFunds, world0)"
    by simp
  from processPayment_preconditions [OF h2, where eth = exampleEthers
      and privateKey = "''0xkey''" and w = world0
      and q = "exampleQuote ''requires-physical-address''"] q2
  have b: "processPayment exampleEthers ?noaddr ''0xkey'' world0 = (Inl AddressRequired, world0)"
    by simp
  from processPayment_preconditions [OF h3, where eth = exampleEthers
      and privateKey = "''0xkey''" and w = world0 and q = "exampleQuote ''valid''"] q3
  have c: "fst (processPayment exampleEthers ?bare ''0xkey'' world0)
       = Inl (PaymentPayloadMissing ?bare)
     \<and> submissions (snd (processPayment exampleEthers ?bare ''0xkey'' world0)) = []"
    by (simp add: s)
  from h1 t s a b c show ?thesis by blast
qed

text \<open>
  Claim C6. \<^verbatim>\<open>processPayment\<close> resolves the RPC endpoint from \<^verbatim>\<open>payment.method\<close> by
  the fixed table: \<^verbatim>\<open>polygon\<close> gives the Polygon mainnet endpoint, \<^verbatim>\<open>polygon-amoy\<close> the
  Polygon Amoy testnet endpoint, \<^verbatim>\<open>base\<close> the Base mainnet endpoint and
  \<^verbatim>\<open>base-sepolia\<close> the Base Sepolia testnet endpoint; every other method gives the Amoy
  endpoint, with no error. For every order that passes the preconditions, with a key
  the wallet accepts and a transaction that decodes, the transaction is submitted to the
  endpoint of the table, and when the chain accepts and confirms it the receipt is the
  result.
\<close>

theorem processPayment_rpcUrl:
  "rpcUrl ''polygon'' = ''https://polygon-rpc.com/''
   \<and> rpcUrl ''polygon-amoy'' = ''https://rpc-amoy.polygon.technology/''
   \<and> rpcUrl ''base'' = ''https://mainnet.base.org''
   \<and> rpcUrl ''base-sepolia'' = ''https://sepolia.base.org''
   \<and> (paymentMethod \<noteq> ''polygon'' \<and> paymentMethod \<noteq> ''polygon-amoy'' \<and> paymentMethod \<noteq> ''base''
        \<and> paymentMethod \<noteq> ''base-sepolia'' \<longrightarrow>
        rpcUrl paymentMethod = ''https://rpc-amoy.polygon.technology/'')
   \<and> (payable ord pay tx \<and> newWallet eth privateKey \<and> parseTransaction eth tx = Inr parsed \<longrightarrow>
        submissions (snd (processPayment eth ord privateKey w))
          = submissions w @ [(rpcUrl (payment_method pay), tx)])
   \<and> (payable ord pay tx \<and> newWallet eth privateKey \<and> parseTransaction eth tx = Inr parsed
        \<and> sendTransaction eth (rpcUrl (payment_method pay)) privateKey parsed = Inr hash
        \<and> wait eth (rpcUrl (payment_method pay)) hash = Inr rcpt \<longrightarrow>
        fst (processPayment eth ord privateKey w) = Inr rcpt)"
proof -
  have "payable ord pay tx \<and> newWallet eth privateKey \<and> parseTransaction eth tx = Inr parsed \<longrightarrow>
        submissions (snd (processPayment eth ord privateKey w))
          = submissions w @ [(rpcUrl (payment_method pay), tx)]"
    by (auto simp: payable_def processPayment_def preparedTransaction_def Let_def consoleLog_def
        split: option.splits sum.splits)
  moreover have "payable ord pay tx \<and> newWallet eth privateKey \<and> parseTransaction eth tx = Inr parsed
        \<and> sendTransaction eth (rpcUrl (payment_method pay)) privateKey parsed = Inr hash
        \<and> wait eth (rpcUrl (payment_method pay)) hash = Inr rcpt \<longrightarrow>
        fst (processPayment eth ord privateKey w) = Inr rcpt"
    by (auto simp: payable_def processPayment_def preparedTransaction_def Let_def consoleLog_def
        split: option.splits sum.splits)
  ultimately show ?thesis by (simp add: rpcUrl_def)
qed

theorem processPayment_rpcUrl_witness:
  "''xyz'' \<noteq> ''polygon'' \<and> ''xyz'' \<noteq> ''polygon-amoy'' \<and> ''xyz'' \<noteq> ''base''
   \<and> ''xyz'' \<noteq> ''base-sepolia''
   \<and> rpcUrl ''xyz'' = ''https://rpc-amoy.polygon.technology/''
   \<and> payable (exampleOrder ''awaiting-payment'' ''xyz'' (Some ''0x02f8''))
         \<lparr>payment_status = ''awaiting-payment'', payment_method = ''xyz'',
          payment_currency = ''usdc'',
          preparation = Some \<lparr>serializedTransaction = Some ''0x02f8'', otherKeys = []\<rparr>\<rparr>
         ''0x02f8''
   \<and> newWallet exampleEthers ''0xkey''
   \<and> parseTransaction exampleEthers ''0x02f8'' = Inr ''0x02f8''
   \<and> submissions (snd (processPayment exampleEthers
         (exampleOrder ''awaiting-payment'' ''xyz'' (Some ''0x02f8'')) ''0xkey'' world0))
       = [(''https://rpc-amoy.polygon.technology/'', ''0x02f8'')]
   \<and> fst (processPayment exampleEthers
         (exampleOrder ''awaiting-payment'' ''xyz'' (Some ''0x02f8'')) ''0xkey'' world0)
       = Inr \<lparr>transactionHash = ''0xabc'', blockNumber = 7\<rparr>"
proof -
  let ?ord = "exampleOrder ''awaiting-payment'' ''xyz'' (Some ''0x02f8'')"
  let ?pay = "\<lparr>payment_status = ''awaiting-payment'', payment_method = ''xyz'',
          payment_currency = ''usdc'',
          preparation = Some \<lparr>serializedTransaction = Some ''0x02f8'', otherKeys = []\<rparr>\<rparr>"
  have m: "''xyz'' \<noteq> ''polygon'' \<and> ''xyz'' \<noteq> ''polygon-amoy'' \<and> ''xyz'' \<noteq> ''base''
      \<and> ''xyz'' \<noteq> ''base-sepolia''" by simp
  have p: "payable ?ord ?pay ''0x02f8''"
    by (simp add: payable_def exampleOrder_def exampleQuote_def preparedTransaction_def)
  have e: "newWallet exampleEthers ''0xkey''"
    "parseTransaction exampleEthers ''0x02f8'' = Inr ''0x02f8''"
    "sendTransaction exampleEthers (rpcUrl (payment_method ?pay)) ''0xkey'' ''0x02f8'' = Inr ''0xabc''"
    "wait exampleEthers (rpcUrl (payment_method ?pay)) ''0xabc''
       = Inr \<lparr>transactionHash = ''0xabc'', blockNumber = 7\<rparr>"
    by (simp_all add: exampleEthers_def)
  have s: "submissions world0 = []" by (simp add: world0_def)
  note t = processPayment_rpcUrl [where paymentMethod = "''xyz''" and ord = ?ord and pay = ?pay
      and tx = "''0x02f8''" and eth = exampleEthers and privateKey = "''0xkey''"
      and parsed = "''0x02f8''" and w = world0 and hash = "''0xabc''"
      and rcpt = "\<lparr>transactionHash = ''0xabc'', blockNumber = 7\<rparr>"]
  from t m have u: "rpcUrl ''xyz'' = ''https://rpc-amoy.polygon.technology/''" by blast
  from t p e have "submissions (snd (processPayment exampleEthers ?ord ''0xkey'' world0))
       = submissions world0 @ [(rpcUrl (payment_method ?pay), ''0x02f8'')]"
    by blast
  then have a: "submissions (snd (processPayment exampleEthers ?ord ''0xkey'' world0))
       = [(''https://rpc-amoy.polygon.technology/'', ''0x02f8'')]"
    using u by (simp add: s)
  from t p e have b: "fst (processPayment exampleEthers ?ord ''0xkey'' world0)
       = Inr \<lparr>transactionHash = ''0xabc'', blockNumber = 7\<rparr>"
    by blast
  from m u p e(1,2) a b show ?thesis by blast
qed

section \<open>Properties of the buy command\<close>

lemma submissions_consoleLog [simp]: "submissions (consoleLog l w) = submissions w"
  by (simp add: consoleLog_def)

lemma submissions_sleep [simp]: "submissions (sleep ms w) = submissions w"
  by (simp add: sleep_def)

lemma submissions_callGetOrderStatus:
  "callGetOrderStatus gw oid apiKey w = (r, w') \<Longrightarrow> submissions w' = submissions w"
  by (auto simp: callGetOrderStatus_def)

lemma pollAttempt_submissions:
  "pollAttempt gw oid apiKey delayMs vars w = (a, vars', w') \<Longrightarrow> submissions w' = submissions w"
  by (auto simp: pollAttempt_def callGetOrderStatus_def Let_def
      split: sum.splits prod.splits if_splits option.splits)

lemma waitLoop_submissions:
  "waitLoop gw oid apiKey maxAttempts delayMs attempts vars w = (r, w')
   \<Longrightarrow> submissions w' = submissions w"
proof (induction gw oid apiKey maxAttempts delayMs attempts vars w rule: waitLoop.induct)
  case (1 gw oid apiKey maxAttempts delayMs attempts vars w)
  show ?case
  proof (cases "attempts < maxAttempts")
    case False
    with "1.prems" show ?thesis by (simp add: waitLoop.simps [of _ _ _ _ _ attempts])
  next
    case True
    obtain a vars1 w1 where p: "pollAttempt gw oid apiKey delayMs vars w = (a, vars1, w1)"
      by (cases "pollAttempt gw oid apiKey delayMs vars w") auto
    note s = pollAttempt_submissions [OF p]
    show ?thesis
    proof (cases a)
      case (Returned x)
      with "1.prems" True p s show ?thesis
        by (simp add: waitLoop.simps [of _ _ _ _ _ attempts])
    next
      case (Thrown e)
      show ?thesis
      proof (cases "attempts + 1 \<ge> maxAttempts")
        case True
        with "1.prems" \<open>attempts < maxAttempts\<close> p s Thrown show ?thesis
          by (simp add: waitLoop.simps [of _ _ _ _ _ attempts])
      next
        case False
        with "1.prems" \<open>attempts < maxAttempts\<close> p Thrown
        have "waitLoop gw oid apiKey maxAttempts delayMs (attempts + 1) vars1
                (sleep delayMs (consoleLog (ErrorPollingOrderStatus e) w1)) = (r, w')"
          by (simp add: waitLoop.simps [of _ _ _ _ _ attempts])
        from "1.IH"(1) [OF \<open>attempts < maxAttempts\<close> p [symmetric] _ _ False this] Thrown s
        show ?thesis by simp
      qed
    next
      case Completed
      with "1.prems" True p
      have "waitLoop gw oid apiKey maxAttempts delayMs (attempts + 1) vars1 w1 = (r, w')"
        by (simp add: waitLoop.simps [of _ _ _ _ _ attempts])
      from "1.IH"(2) [OF True p [symmetric] _ _ this] Completed s
      show ?thesis by simp
    qed
  qed
qed


lemma monitorLoop_submissions:
  "submissions (monitorLoop gw oid apiKey attempts currentPhase currentPaymentStatus w)
   = submissions w"
proof (induction gw oid apiKey attempts currentPhase currentPaymentStatus w
    rule: monitorLoop.induct)
  case (1 gw oid apiKey attempts currentPhase currentPaymentStatus w)
  show ?case
    apply (subst monitorLoop.simps)
    using "1.IH"
    apply (auto simp: Let_def callGetOrderStatus_def split: sum.splits)
    done
qed

lemma processPayment_submissions:
  "processPayment eth ord privateKey w = (r, w')
   \<Longrightarrow> length (submissions w') \<le> length (submissions w) + 1"
  by (auto simp: processPayment_def Let_def
      split: option.splits if_splits sum.splits)


lemma buyAction_submissions:
  "length (submissions (buyAction gw eth apiKey envPrivateKey result w))
   \<le> length (submissions w) + 1"
proof (cases result)
  case (Inl e)
  then show ?thesis by (simp add: buyAction_def)
next
  case (Inr p)
  obtain oid status where p: "p = (oid, status)" by (cases p) auto
  define w0 where "w0 = consoleLog ReadyForPayment w"
  have pay: "length (submissions
      (case waitForPaymentPreparation gw oid apiKey
             DEFAULT_POLLING_MAX_ATTEMPTS DEFAULT_POLLING_DELAY_MS w0 of
         (Inl e, w2) \<Rightarrow> consoleLog CompleteManually (consoleLog (ErrorProcessingPayment e) w2)
       | (Inr paymentStatusResponse, w2) \<Rightarrow>
           let orderWithPayment = orderOf paymentStatusResponse
           in (case processPayment eth orderWithPayment privateKey
                      (consoleLog ProcessingPayment w2) of
                 (Inl e, w3) \<Rightarrow>
                   consoleLog CompleteManually (consoleLog (ErrorProcessingPayment e) w3)
               | (Inr rcpt, w3) \<Rightarrow> consoleLog PaymentProcessed w3)))
      \<le> length (submissions w) + 1" for privateKey
  proof -
    obtain r w2 where wp: "waitForPaymentPreparation gw oid apiKey
             DEFAULT_POLLING_MAX_ATTEMPTS DEFAULT_POLLING_DELAY_MS w0 = (r, w2)"
      by (cases "waitForPaymentPreparation gw oid apiKey
             DEFAULT_POLLING_MAX_ATTEMPTS DEFAULT_POLLING_DELAY_MS w0") auto
    then have s2: "submissions w2 = submissions w"
      using waitLoop_submissions [of gw oid apiKey DEFAULT_POLLING_MAX_ATTEMPTS
          DEFAULT_POLLING_DELAY_MS 0 _ w0 r w2]
      by (simp add: waitForPaymentPreparation_def w0_def)
    show ?thesis
    proof (cases r)
      case (Inl e)
      with wp s2 show ?thesis by simp
    next
      case (Inr resp)
      obtain r3 w3 where pp: "processPayment eth (orderOf resp) privateKey
          (consoleLog ProcessingPayment w2) = (r3, w3)"
        by (cases "processPayment eth (orderOf resp) privateKey
          (consoleLog ProcessingPayment w2)") auto
      from processPayment_submissions [OF pp] s2
      have "length (submissions w3) \<le> length (submissions w) + 1" by simp
      with wp Inr pp show ?thesis by (cases r3) (simp_all add: Let_def)
    qed
  qed
  show ?thesis
    unfolding Inr p buyAction_def
    using pay
    by (simp add: Let_def monitorLoop_submissions w0_def split: option.splits)
qed

text \<open>
  Claim C1. Within one run of the buy command the serialized transaction of the order
  is signed and submitted to the chain at most once: a run that starts with no
  submission ends with at most one, for every sequence of status responses, every chain
  client, every key and every result of order creation. After the payment step the
  monitoring loop only reads the order status; it leaves the submissions as they are
  whatever it observes, a snapshot that still carries a serialized transaction
  included.
\<close>

theorem buyAction_submits_at_most_once:
  "length (submissions (buyAction gw eth apiKey envPrivateKey result world0)) \<le> 1
   \<and> submissions (monitorLoop gw oid apiKey attempts currentPhase currentPaymentStatus w)
       = submissions w"
  using buyAction_submissions [of gw eth apiKey envPrivateKey result world0]
  by (simp add: monitorLoop_submissions world0_def)

theorem buyAction_submits_at_most_once_witness:
  "ready readyResponse
   \<and> ready (flattened (exampleOrder ''completed'' ''polygon-amoy'' (Some ''0x02f8'')))
   \<and> length (submissions (buyAction
        (scripted [Inr readyResponse, Inr readyResponse,
                   Inr (flattened (exampleOrder ''completed'' ''polygon-amoy'' (Some ''0x02f8''))),
                   Inr (flattened (exampleOrder ''completed'' ''polygon-amoy'' (Some ''0x02f8'')))])
        exampleEthers ''sk_staging_1'' (Some ''0xkey'') (Inr (''order-1'', ''valid'')) world0)) \<le> 1
   \<and> submissions (buyAction
        (scripted [Inr readyResponse, Inr readyResponse,
                   Inr (flattened (exampleOrder ''completed'' ''polygon-amoy'' (Some ''0x02f8''))),
                   Inr (flattened (exampleOrder ''completed'' ''polygon-amoy'' (Some ''0x02f8'')))])
        exampleEthers ''sk_staging_1'' (Some ''0xkey'') (Inr (''order-1'', ''valid'')) world0)
       = [(''https://rpc-amoy.polygon.technology/'', ''0x02f8'')]
   \<and> status_calls (buyAction
        (scripted [Inr readyResponse, Inr readyResponse,
                   Inr (flattened (exampleOrder ''completed'' ''polygon-amoy'' (Some ''0x02f8''))),
                   Inr (flattened (exampleOrder ''completed'' ''polygon-amoy'' (Some ''0x02f8'')))])
        exampleEthers ''sk_staging_1'' (Some ''0xkey'') (Inr (''order-1'', ''valid'')) world0) = 4"
proof -
  let ?done = "flattened (exampleOrder ''completed'' ''polygon-amoy'' (Some ''0x02f8''))"
  let ?gw = "scripted [Inr readyResponse, Inr readyResponse, Inr ?done, Inr ?done]"
  have r: "ready readyResponse" "ready ?done"
    by code_simp+
  have a: "submissions (buyAction ?gw exampleEthers ''sk_staging_1'' (Some ''0xkey'')
        (Inr (''order-1'', ''valid'')) world0)
       = [(''https://rpc-amoy.polygon.technology/'', ''0x02f8'')]"
    by code_simp
  have b: "status_calls (buyAction ?gw exampleEthers ''sk_staging_1'' (Some ''0xkey'')
        (Inr (''order-1'', ''valid'')) world0) = 4"
    by code_simp
  from buyAction_submits_at_most_once [where gw = ?gw
      and eth = exampleEthers and apiKey = "''sk_staging_1''" and envPrivateKey = "Some ''0xkey''"
      and result = "Inr (''order-1'', ''valid'')"]
    r a b
  show ?thesis by blast
qed

section \<open>Properties of the order gateway\<close>

lemma map_of_setProp: "map_of (setProp key v ps) = (map_of ps)(key \<mapsto> v)"
  by (induction ps) (auto simp: fun_eq_iff)

lemma map_of_spreadInto:
  "distinct (map fst src) \<Longrightarrow>
   map_of (spreadInto obj src) key
     = (case map_of src key of Some v \<Rightarrow> Some v | None \<Rightarrow> map_of obj key)"
proof (induction src arbitrary: obj)
  case Nil
  show ?case by simp
next
  case (Cons p ps)
  obtain k v where p: "p = (k, v)" by (cases p) auto
  from Cons.prems p have d: "distinct (map fst ps)" and n: "map_of ps k = None"
    by (auto simp: map_of_eq_None_iff)
  show ?case
    using Cons.IH [OF d, of "setProp k v obj"] n
    by (simp add: p map_of_setProp split: option.splits)
qed

text \<open>
  Claim C7, as amended. For every service response that is an object with no
  \<^verbatim>\<open>order\<close> key and with truthy \<^verbatim>\<open>orderId\<close>, \<^verbatim>\<open>phase\<close>, \<^verbatim>\<open>quote\<close> and \<^verbatim>\<open>payment\<close> at
  its top level (non-empty strings, objects), \<^verbatim>\<open>getOrderStatus\<close> returns a value that
  has the same four values at the top level and under \<^verbatim>\<open>order\<close>, and that keeps every
  top-level property of the response. The service is called: the run is not in test
  mode and the order is not a mock order. The keys of an object are distinct.
\<close>

theorem getOrderStatus_flattened:
  assumes "nodeEnv \<noteq> Some ''test''" and "\<not> prefix ''mock-order-'' oid"
    and "axiosGet (getApiBaseUrl apiKey @ ''/orders/'' @ oid) apiKey = Inr (JObj props)"
    and "distinct (map fst props)"
    and "map_of props ''order'' = None"
    and "map_of props ''orderId'' = Some i" and "jsTruthy i"
    and "map_of props ''phase'' = Some ph" and "jsTruthy ph"
    and "map_of props ''quote'' = Some q" and "jsTruthy q"
    and "map_of props ''payment'' = Some pay" and "jsTruthy pay"
  shows "\<exists>res. getOrderStatus nodeEnv axiosGet oid apiKey = Inr res
           \<and> property res ''orderId'' = Some i \<and> orderProp res ''orderId'' = Some i
           \<and> property res ''phase'' = Some ph \<and> orderProp res ''phase'' = Some ph
           \<and> property res ''quote'' = Some q \<and> orderProp res ''quote'' = Some q
           \<and> property res ''payment'' = Some pay \<and> orderProp res ''payment'' = Some pay
           \<and> (\<forall>key v. map_of props key = Some v \<longrightarrow> property res key = Some v)"
proof -
  let ?nested = "JObj [(''orderId'', i), (''phase'', ph), (''quote'', q), (''payment'', pay)]"
  let ?res = "JObj (spreadInto [(''order'', ?nested)] props)"
  have r: "getOrderStatus nodeEnv axiosGet oid apiKey = Inr ?res"
    using assms
    by (simp add: getOrderStatus_def property_def truthyProp_def orDefault_def ownProperties_def)
  have look: "property ?res key = (case map_of props key of Some v \<Rightarrow> Some v
      | None \<Rightarrow> map_of [(''order'', ?nested)] key)" for key
    using map_of_spreadInto [OF assms(4)] by (simp add: property_def)
  have kept: "\<forall>key v. map_of props key = Some v \<longrightarrow> property ?res key = Some v"
    by (simp add: look)
  have ord: "property ?res ''order'' = Some ?nested"
    using assms(5) by (simp add: look)
  have "orderProp ?res ''orderId'' = Some i" "orderProp ?res ''phase'' = Some ph"
    "orderProp ?res ''quote'' = Some q" "orderProp ?res ''payment'' = Some pay"
    by (simp_all add: orderProp_def ord) (simp_all add: property_def)
  with r kept assms show ?thesis by blast
qed

theorem getOrderStatus_flattened_witness:
  "\<exists>res. getOrderStatus None (serviceReturning (flatBody ''order-1'' ''payment''))
            ''order-1'' ''sk_staging_1'' = Inr res
         \<and> property res ''orderId'' = Some (JStr ''order-1'')
         \<and> orderProp res ''orderId'' = Some (JStr ''order-1'')
         \<and> property res ''phase'' = Some (JStr ''payment'')
         \<and> orderProp res ''phase'' = Some (JStr ''payment'')
         \<and> property res ''quote'' = Some (JObj [(''status'', JStr ''valid'')])
         \<and> orderProp res ''quote'' = Some (JObj [(''status'', JStr ''valid'')])
         \<and> property res ''clientSecret'' = Some (JStr ''secret'')"
proof -
  let ?props = "ownProperties (flatBody ''order-1'' ''payment'')"
  let ?pay = "JObj [(''status'', JStr ''awaiting-payment''), (''method'', JStr ''polygon-amoy''),
                    (''currency'', JStr ''usdc'')]"
  have h1: "None \<noteq> Some ''test''" and h2: "\<not> prefix ''mock-order-'' ''order-1''"
    by simp_all
  have h3: "serviceReturning (flatBody ''order-1'' ''payment'')
      (getApiBaseUrl ''sk_staging_1'' @ ''/orders/'' @ ''order-1'') ''sk_staging_1'' = Inr (JObj ?props)"
    by (simp add: serviceReturning_def flatBody_def ownProperties_def)
  have h4: "distinct (map fst ?props)" and h5: "map_of ?props ''order'' = None"
    and h6: "map_of ?props ''orderId'' = Some (JStr ''order-1'')" "jsTruthy (JStr ''order-1'')"
    and h7: "map_of ?props ''phase'' = Some (JStr ''payment'')" "jsTruthy (JStr ''payment'')"
    and h8: "map_of ?props ''quote'' = Some (JObj [(''status'', JStr ''valid'')])"
      "jsTruthy (JObj [(''status'', JStr ''valid'')])"
    and h9: "map_of ?props ''payment'' = Some ?pay" "jsTruthy ?pay"
    and h10: "map_of ?props ''clientSecret'' = Some (JStr ''secret'')"
    by (simp_all add: flatBody_def ownProperties_def)
  note t = getOrderStatus_flattened [where nodeEnv = None and oid = "''order-1''"
      and axiosGet = "serviceReturning (flatBody ''order-1'' ''payment'')"
      and apiKey = "''sk_staging_1''" and props = ?props
      and i = "JStr ''order-1''" and ph = "JStr ''payment''"
      and q = "JObj [(''status'', JStr ''valid'')]" and pay = ?pay]
  from t [OF h1 h2 h3 h4 h5 h6 h7 h8 h9] h10
  show ?thesis by blast
qed

text \<open>
  Claim C7, as stated, fails on a flattened response whose \<^verbatim>\<open>phase\<close> is the empty
  string: \<^verbatim>\<open>data.phase || 'unknown'\<close> puts \<^verbatim>\<open>unknown\<close> under \<^verbatim>\<open>order.phase\<close> while the
  top level keeps the empty string. It also fails when \<^verbatim>\<open>orderId\<close> is the empty
  string: the guard \<^verbatim>\<open>data.orderId\<close> is false and the response is returned as it is,
  with nothing under \<^verbatim>\<open>order\<close>.
\<close>

theorem getOrderStatus_flattened_counterexample:
  "property (flatBody ''order-1'' []) ''order'' = None
   \<and> property (flatBody ''order-1'' []) ''phase'' = Some (JStr [])
   \<and> getOrderStatus None (serviceReturning (flatBody ''order-1'' [])) ''order-1'' ''sk_staging_1''
       = Inr (JObj ((''order'',
                JObj [(''orderId'', JStr ''order-1''), (''phase'', JStr ''unknown''),
                      (''quote'', JObj [(''status'', JStr ''valid'')]),
                      (''payment'', JObj [(''status'', JStr ''awaiting-payment''),
                                         (''method'', JStr ''polygon-amoy''),
                                         (''currency'', JStr ''usdc'')])])
              # ownProperties (flatBody ''order-1'' [])))
   \<and> orderProp (JObj ((''order'',
                JObj [(''orderId'', JStr ''order-1''), (''phase'', JStr ''unknown''),
                      (''quote'', JObj [(''status'', JStr ''valid'')]),
                      (''payment'', JObj [(''status'', JStr ''awaiting-payment''),
                                         (''method'', JStr ''polygon-amoy''),
                                         (''currency'', JStr ''usdc'')])])
              # ownProperties (flatBody ''order-1'' []))) ''phase''
       = Some (JStr ''unknown'')
   \<and> JStr ''unknown'' \<noteq> JStr []
   \<and> property (flatBody [] ''payment'') ''orderId'' = Some (JStr [])
   \<and> getOrderStatus None (serviceReturning (flatBody [] ''payment'')) ''order-1'' ''sk_staging_1''
       = Inr (flatBody [] ''payment'')
   \<and> orderProp (flatBody [] ''payment'') ''orderId'' = None"
  by (simp add: getOrderStatus_def serviceReturning_def flatBody_def property_def orderProp_def
      truthyProp_def orDefault_def ownProperties_def)

end
